theory Spec2Isabelle
  imports Main
begin

section \<open>Python values used by schedule\_app/models.py\<close>

text \<open>
  Exceptions of the source, as values. \<open>NotPending\<close> stands for the two
  \<^verbatim>\<open>ValueError("... request is not pending")\<close>, \<open>AnalystsNotFound\<close> and
  \<open>TypesNotConfigured\<close> for the two \<^verbatim>\<open>ValueError\<close>s of \<^verbatim>\<open>generate_schedule\<close>,
  \<open>TimeFieldOutOfRange\<close> for the \<^verbatim>\<open>ValueError\<close> of \<^verbatim>\<open>datetime.time(hour, minute)\<close>,
  \<open>DateOverflow\<close> for the \<^verbatim>\<open>OverflowError\<close> of date arithmetic that leaves
  \<^verbatim>\<open>date.min .. date.max\<close>, \<open>IndexError\<close> for a list index out of range and
  \<open>IntegrityError\<close> for a violated UNIQUE constraint of the database.
\<close>

datatype error =
    NotPending
  | AnalystsNotFound int int
  | TypesNotConfigured
  | TimeFieldOutOfRange
  | DateOverflow
  | IndexError
  | IntegrityError

text \<open>
  A \<^verbatim>\<open>datetime.date\<close> is its proleptic Gregorian ordinal (\<^verbatim>\<open>date.toordinal()\<close>:
  0001-01-01 is 1, 9999-12-31 is 3652059). \<open>ymd\<close> is \<^verbatim>\<open>date(y, m, d).toordinal()\<close>
  and is used to write calendar dates.
\<close>

type_synonym pydate = int

definition is_leap :: "int \<Rightarrow> bool" where
  "is_leap y = (y mod 4 = 0 \<and> (y mod 100 \<noteq> 0 \<or> y mod 400 = 0))"

definition days_before_year :: "int \<Rightarrow> int" where
  "days_before_year year = (let y = year - 1 in y * 365 + y div 4 - y div 100 + y div 400)"

definition days_before_month :: "int \<Rightarrow> int \<Rightarrow> int" where
  "days_before_month year month =
     [0, 0, 31, 59, 90, 120, 151, 181, 212, 243, 273, 304, 334] ! nat month
       + (if month > 2 \<and> is_leap year then 1 else 0)"

definition ymd :: "int \<Rightarrow> int \<Rightarrow> int \<Rightarrow> pydate" where
  "ymd year month day = days_before_year year + days_before_month year month + day"

definition date_min :: pydate where
  "date_min = 1"

definition date_max :: pydate where
  "date_max = 3652059"

text \<open>\<^verbatim>\<open>date.weekday()\<close>: Monday is 0, Sunday is 6.\<close>

definition weekday :: "pydate \<Rightarrow> int" where
  "weekday d = (d + 6) mod 7"

text \<open>\<^verbatim>\<open>d + timedelta(days=n)\<close> (and \<^verbatim>\<open>d - timedelta(days=n)\<close> with \<open>- n\<close>).\<close>

definition date_add_days :: "pydate \<Rightarrow> int \<Rightarrow> error + pydate" where
  "date_add_days d n =
     (if date_min \<le> d + n \<and> d + n \<le> date_max then Inr (d + n) else Inl DateOverflow)"

text \<open>
  A \<^verbatim>\<open>datetime\<close> built by \<^verbatim>\<open>datetime.combine(date, time(hour, minute))\<close> has no
  seconds; it is modelled as the number of minutes since the midnight that starts
  ordinal 0. \<^verbatim>\<open>time(hour, minute)\<close> raises unless \<open>0 \<le> hour < 24\<close> and
  \<open>0 \<le> minute < 60\<close>.
\<close>

type_synonym pydatetime = int

definition combine :: "pydate \<Rightarrow> int \<Rightarrow> int \<Rightarrow> error + pydatetime" where
  "combine d hour minute =
     (if 0 \<le> hour \<and> hour < 24 \<and> 0 \<le> minute \<and> minute < 60
      then Inr (d * 1440 + hour * 60 + minute)
      else Inl TimeFieldOutOfRange)"

text \<open>\<^verbatim>\<open>str(n)\<close> for a primary key.\<close>

fun str_nat :: "nat \<Rightarrow> string" where
  "str_nat n =
     (if n < 10 then [char_of (48 + n)]
      else str_nat (n div 10) @ [char_of (48 + n mod 10)])"

declare str_nat.simps [simp del]

section \<open>Analyst and MonitoringType\<close>

record Analyst =
  analyst_pk :: nat
  display_name :: string
  is_active :: bool
  pattern_position :: int

record MonitoringType =
  mt_pk :: nat
  code :: string
  default_start_hour :: int
  default_start_minute :: int
  default_end_hour :: int
  default_end_minute :: int
  monday_start_offset_hours :: int
  monday_end_offset_hours :: int

text \<open>
  \<^verbatim>\<open>MonitoringType.get_time_window_for_date\<close>. The start is computed first, then the
  end, so an exception of the start wins.
\<close>

definition window_start_for :: "MonitoringType \<Rightarrow> pydate \<Rightarrow> error + pydatetime" where
  "window_start_for mt target_date =
     (if weekday target_date = 0 \<and> monday_start_offset_hours mt > 0 then
        (case date_add_days target_date (- (monday_start_offset_hours mt div 24)) of
           Inl e \<Rightarrow> Inl e
         | Inr start_date \<Rightarrow>
             (let start_hour = default_start_hour mt - monday_start_offset_hours mt mod 24 in
              if start_hour < 0 then
                (case date_add_days start_date (- 1) of
                   Inl e \<Rightarrow> Inl e
                 | Inr start_date' \<Rightarrow>
                     combine start_date' (start_hour + 24) (default_start_minute mt))
              else combine start_date start_hour (default_start_minute mt)))
      else
        (case date_add_days target_date (- 1) of
           Inl e \<Rightarrow> Inl e
         | Inr start_date \<Rightarrow>
             combine start_date (default_start_hour mt) (default_start_minute mt)))"

definition window_end_for :: "MonitoringType \<Rightarrow> pydate \<Rightarrow> error + pydatetime" where
  "window_end_for mt target_date =
     (if weekday target_date = 0 \<and> monday_end_offset_hours mt > 0 then
        (let end_hour = default_end_hour mt + monday_end_offset_hours mt in
         if end_hour \<ge> 24 then
           (case date_add_days target_date 1 of
              Inl e \<Rightarrow> Inl e
            | Inr end_date \<Rightarrow> combine end_date (end_hour - 24) (default_end_minute mt))
         else combine target_date end_hour (default_end_minute mt))
      else combine target_date (default_end_hour mt) (default_end_minute mt))"

definition get_time_window_for_date ::
  "MonitoringType \<Rightarrow> pydate \<Rightarrow> error + (pydatetime \<times> pydatetime)" where
  "get_time_window_for_date mt target_date =
     (case window_start_for mt target_date of
        Inl e \<Rightarrow> Inl e
      | Inr start_time \<Rightarrow>
          (case window_end_for mt target_date of
             Inl e \<Rightarrow> Inl e
           | Inr end_time \<Rightarrow> Inr (start_time, end_time)))"

section \<open>SchedulePattern\<close>

record SchedulePattern =
  reference_start_date :: pydate
  em_pattern :: "int list"
  dm_pattern :: "int list"

text \<open>\<^verbatim>\<open>xs[i]\<close> for an index that is not negative.\<close>

definition list_get :: "int list \<Rightarrow> int \<Rightarrow> error + int" where
  "list_get xs i = (if 0 \<le> i \<and> i < int (length xs) then Inr (xs ! nat i) else Inl IndexError)"

text \<open>
  \<^verbatim>\<open>SchedulePattern.get_assignments_for_date\<close>. Python's \<^verbatim>\<open>%\<close> with a positive
  right operand is \<open>mod\<close> on \<open>int\<close> (the result is never negative), and
  \<^verbatim>\<open>-days_diff % pattern_length\<close> is \<open>(- days_diff) mod pattern_length\<close>.
  A list is true when it is not empty.
\<close>

definition get_assignments_for_date :: "SchedulePattern \<Rightarrow> pydate \<Rightarrow> error + (int \<times> int)" where
  "get_assignments_for_date sp target_date =
     (let days_diff = target_date - reference_start_date sp in
      if days_diff < 0 then
        (let days_diff = abs days_diff;
             pattern_length = (if em_pattern sp \<noteq> [] then int (length (em_pattern sp)) else 4)
         in case (if em_pattern sp \<noteq> []
                  then list_get (em_pattern sp) ((- days_diff) mod pattern_length)
                  else Inr (days_diff mod 4)) of
              Inl e \<Rightarrow> Inl e
            | Inr em_index \<Rightarrow>
                (case (if dm_pattern sp \<noteq> []
                       then list_get (dm_pattern sp) ((- days_diff) mod pattern_length)
                       else Inr ((em_index + 3) mod 4)) of
                   Inl e \<Rightarrow> Inl e
                 | Inr dm_index \<Rightarrow> Inr (em_index, dm_index)))
      else if em_pattern sp \<noteq> [] \<and> int (length (em_pattern sp)) > days_diff then
        (case list_get (em_pattern sp) days_diff of
           Inl e \<Rightarrow> Inl e
         | Inr em_index \<Rightarrow>
             (case list_get (dm_pattern sp) days_diff of
                Inl e \<Rightarrow> Inl e
              | Inr dm_index \<Rightarrow> Inr (em_index, dm_index)))
      else Inr (days_diff mod 4, (days_diff mod 4 + 3) mod 4))"

text \<open>\<^verbatim>\<open>SchedulePattern.generate_pattern_sequence\<close>: the loop over \<^verbatim>\<open>range(days)\<close>.\<close>

definition generate_pattern_sequence :: "nat \<Rightarrow> int list \<times> int list" where
  "generate_pattern_sequence days =
     (map (\<lambda>day. int day mod 4) [0..<days],
      map (\<lambda>day. (int day mod 4 + 3) mod 4) [0..<days])"

text \<open>\<^verbatim>\<open>SchedulePattern.save\<close> fills empty tables with 365 days.\<close>

definition SchedulePattern_save :: "SchedulePattern \<Rightarrow> SchedulePattern" where
  "SchedulePattern_save sp =
     (if em_pattern sp = [] \<or> dm_pattern sp = []
      then sp\<lparr>em_pattern := fst (generate_pattern_sequence 365),
              dm_pattern := snd (generate_pattern_sequence 365)\<rparr>
      else sp)"

section \<open>MonitoringAssignment\<close>

text \<open>
  The fields of \<^verbatim>\<open>MonitoringAssignment\<close> that the scheduling code reads or writes.
  \<open>pk\<close> is \<open>None\<close> until the row is inserted; the window and \<open>duration_hours\<close> are
  \<open>None\<close> until they are set. The foreign keys hold the referenced rows; rows are
  compared by primary key, as Django does. \<open>status\<close> is the stored string and \<open>assignment_notes\<close> the field \<^verbatim>\<open>notes\<close>.

  \<open>duration_hours\<close> is \<^verbatim>\<open>round(delta.total_seconds() / 3600, 2)\<close>, kept as an
  integer number of hundredths of an hour. For a window of whole minutes the quotient
  is never halfway between two hundredths (\<open>10 * minutes = 6 * k + 3\<close> has no solution), so the
  float rounding picks the nearest hundredth, \<open>(10 * minutes + 3) div 6\<close>, and
  \<^verbatim>\<open>duration_hours > 14\<close> is \<open>1400 <\<close> that integer.
\<close>

record MonitoringAssignment =
  pk :: "nat option"
  date :: pydate
  monitoring_type :: MonitoringType
  analyst :: Analyst
  window_start :: "pydatetime option"
  window_end :: "pydatetime option"
  duration_hours :: "int option"
  is_monday_assignment :: bool
  is_extended_window :: bool
  status :: string
  assignment_notes :: string

definition round_hours :: "int \<Rightarrow> int" where
  "round_hours minutes = (10 * minutes + 3) div 6"

text \<open>
  \<^verbatim>\<open>MonitoringAssignment(...)\<close> with the keyword arguments the source passes; every
  other field has its default.
\<close>

definition new_assignment ::
  "pydate \<Rightarrow> MonitoringType \<Rightarrow> Analyst \<Rightarrow> pydatetime option \<Rightarrow> pydatetime option \<Rightarrow>
   string \<Rightarrow> string \<Rightarrow> bool \<Rightarrow> bool \<Rightarrow> MonitoringAssignment" where
  "new_assignment d mt an ws we st nt monday extended =
     \<lparr>pk = None, date = d, monitoring_type = mt, analyst = an,
      window_start = ws, window_end = we, duration_hours = None,
      is_monday_assignment = monday, is_extended_window = extended,
      status = st, assignment_notes = nt\<rparr>"

text \<open>
  The body of \<^verbatim>\<open>MonitoringAssignment.save\<close> before \<^verbatim>\<open>super().save()\<close>.
  \<open>set_duration\<close> is the first \<^verbatim>\<open>if\<close>/\<^verbatim>\<open>else\<close>: a datetime is always true, so the
  test is that both ends are set; a model instance and a date are always true, so the
  inner test of the \<^verbatim>\<open>else\<close> holds.
\<close>

definition set_duration :: "MonitoringAssignment \<Rightarrow> error + (MonitoringAssignment \<times> int)" where
  "set_duration a =
     (case window_start a of
        Some s \<Rightarrow>
          (case window_end a of
             Some e \<Rightarrow> Inr (a\<lparr>duration_hours := Some (round_hours (e - s))\<rparr>, round_hours (e - s))
           | None \<Rightarrow>
               (case get_time_window_for_date (monitoring_type a) (date a) of
                  Inl err \<Rightarrow> Inl err
                | Inr (s', e') \<Rightarrow>
                    Inr (a\<lparr>window_start := Some s', window_end := Some e',
                           duration_hours := Some (round_hours (e' - s'))\<rparr>,
                         round_hours (e' - s'))))
      | None \<Rightarrow>
          (case get_time_window_for_date (monitoring_type a) (date a) of
             Inl err \<Rightarrow> Inl err
           | Inr (s', e') \<Rightarrow>
               Inr (a\<lparr>window_start := Some s', window_end := Some e',
                      duration_hours := Some (round_hours (e' - s'))\<rparr>,
                    round_hours (e' - s'))))"

definition set_flags :: "MonitoringAssignment \<Rightarrow> int \<Rightarrow> MonitoringAssignment" where
  "set_flags a hours100 =
     (let a1 = a\<lparr>is_monday_assignment := (weekday (date a) = 0)\<rparr> in
      if is_monday_assignment a1 then
        (if code (monitoring_type a1) = ''EM'' \<and> hours100 > 1400
           then a1\<lparr>is_extended_window := True\<rparr>
         else if code (monitoring_type a1) = ''DM'' \<and> hours100 > 2400
           then a1\<lparr>is_extended_window := True\<rparr>
         else a1)
      else a1)"

definition pre_save :: "MonitoringAssignment \<Rightarrow> error + MonitoringAssignment" where
  "pre_save a =
     (case set_duration a of
        Inl err \<Rightarrow> Inl err
      | Inr (a1, hours100) \<Rightarrow> Inr (set_flags a1 hours100))"

section \<open>The database\<close>

text \<open>
  The tables the scheduling code reads and writes. \<open>assignments\<close> is the table of
  \<^verbatim>\<open>MonitoringAssignment\<close> rows and \<open>next_pk\<close> its auto-increment counter. A query
  returns its rows in the order of the list (the \<^verbatim>\<open>ORDER BY\<close> of \<^verbatim>\<open>Meta.ordering\<close> is
  the order in which the lists are given).
\<close>

record database =
  assignments :: "MonitoringAssignment list"
  next_pk :: nat
  analysts :: "Analyst list"
  monitoring_types :: "MonitoringType list"

text \<open>\<^verbatim>\<open>unique_together = ['date', 'monitoring_type']\<close>: the key of a row.\<close>

definition row_key :: "MonitoringAssignment \<Rightarrow> pydate \<times> nat" where
  "row_key r = (date r, mt_pk (monitoring_type r))"

text \<open>
  \<^verbatim>\<open>super().save()\<close>: an instance without primary key is inserted with the next one;
  an instance with a primary key updates its row, or is inserted under that key when
  no row has it. The UNIQUE constraint on \<open>row_key\<close> rejects the statement with
  \<open>IntegrityError\<close> when another row holds the key.
\<close>

definition db_save ::
  "database \<Rightarrow> MonitoringAssignment \<Rightarrow> error + (MonitoringAssignment \<times> database)" where
  "db_save db a =
     (case pk a of
        None \<Rightarrow>
          (if filter (\<lambda>r. row_key r = row_key a) (assignments db) \<noteq> [] then Inl IntegrityError
           else
             (let a' = a\<lparr>pk := Some (next_pk db)\<rparr> in
              Inr (a', db\<lparr>assignments := assignments db @ [a'], next_pk := next_pk db + 1\<rparr>)))
      | Some i \<Rightarrow>
          (if filter (\<lambda>r. pk r = Some i) (assignments db) \<noteq> [] then
             (if filter (\<lambda>r. row_key r = row_key a \<and> pk r \<noteq> Some i) (assignments db) \<noteq> []
              then Inl IntegrityError
              else Inr (a, db\<lparr>assignments :=
                                map (\<lambda>r. if pk r = Some i then a else r) (assignments db)\<rparr>))
           else
             (if filter (\<lambda>r. row_key r = row_key a) (assignments db) \<noteq> [] then Inl IntegrityError
              else Inr (a, db\<lparr>assignments := assignments db @ [a],
                              next_pk := max (next_pk db) (i + 1)\<rparr>))))"

text \<open>\<^verbatim>\<open>MonitoringAssignment.save\<close>.\<close>

definition save ::
  "database \<Rightarrow> MonitoringAssignment \<Rightarrow> error + (MonitoringAssignment \<times> database)" where
  "save db a = (case pre_save a of Inl err \<Rightarrow> Inl err | Inr a' \<Rightarrow> db_save db a')"

text \<open>
  \<^verbatim>\<open>MonitoringAssignment.objects.create(**kwargs)\<close>: the instance is built from the
  keyword arguments (none of them is the primary key) and saved.
\<close>

definition objects_create ::
  "database \<Rightarrow> MonitoringAssignment \<Rightarrow> error + (MonitoringAssignment \<times> database)" where
  "objects_create db a = save db (a\<lparr>pk := None\<rparr>)"

section \<open>ShiftSwapRequest\<close>

text \<open>\<^verbatim>\<open>timezone.now()\<close> is a parameter of the operations that read the clock.\<close>

type_synonym timestamp = int

record ShiftSwapRequest =
  original_assignment :: MonitoringAssignment
  requested_analyst :: Analyst
  swap_status :: string
  reason :: string
  reciprocal_assignment :: "MonitoringAssignment option"
  requested_by :: Analyst
  swap_approved_by :: "Analyst option"
  responded_at :: "timestamp option"

text \<open>
  \<^verbatim>\<open>ShiftSwapRequest.approve_swap\<close>. The method runs outside a transaction, so each
  statement that succeeded stays written when a later one raises: the result is the
  outcome, the request object and the database as they are when the method returns or
  raises.
\<close>

definition approve_swap ::
  "ShiftSwapRequest \<Rightarrow> Analyst \<Rightarrow> timestamp \<Rightarrow> database \<Rightarrow>
   (error + MonitoringAssignment) \<times> ShiftSwapRequest \<times> database" where
  "approve_swap req approved_by_analyst now db =
     (if swap_status req \<noteq> ''PENDING'' then (Inl NotPending, req, db)
      else
        (let orig = original_assignment req in
         case objects_create db
                (new_assignment (date orig) (monitoring_type orig) (requested_analyst req)
                   (window_start orig) (window_end orig) ''CONFIRMED''
                   (''Swapped with '' @ display_name (analyst orig) @ ''. '' @ reason req)
                   False False) of
           Inl err \<Rightarrow> (Inl err, req, db)
         | Inr (reciprocal, db1) \<Rightarrow>
             (let orig1 = orig\<lparr>analyst := requested_analyst req,
                               assignment_notes :=
                                 ''Originally assigned to '' @ display_name (requested_by req)
                                 @ '', swapped with '' @ display_name (requested_analyst req)\<rparr>
              in case pre_save orig1 of
                   Inl err \<Rightarrow> (Inl err, req\<lparr>original_assignment := orig1\<rparr>, db1)
                 | Inr orig2 \<Rightarrow>
                     (case db_save db1 orig2 of
                        Inl err \<Rightarrow> (Inl err, req\<lparr>original_assignment := orig2\<rparr>, db1)
                      | Inr (orig3, db2) \<Rightarrow>
                          (Inr reciprocal,
                           req\<lparr>original_assignment := orig3,
                               reciprocal_assignment := Some reciprocal,
                               swap_approved_by := Some approved_by_analyst,
                               swap_status := ''APPROVED'',
                               responded_at := Some now\<rparr>,
                           db2)))))"

section \<open>LeaveRequest\<close>

text \<open>\<open>affected_assignments\<close> is the many-to-many relation: the primary keys it holds.\<close>

record LeaveRequest =
  leave_analyst :: Analyst
  start_date :: pydate
  end_date :: pydate
  leave_status :: string
  covered_by :: "Analyst option"
  coverage_notes :: string
  auto_adjust_pattern :: bool
  affected_assignments :: "nat list"
  leave_approved_by :: "Analyst option"
  updated_at :: "timestamp option"

text \<open>The queryset of \<^verbatim>\<open>LeaveRequest.assess_impact\<close>.\<close>

definition impacted :: "LeaveRequest \<Rightarrow> database \<Rightarrow> MonitoringAssignment list" where
  "impacted lr db =
     filter (\<lambda>r. analyst_pk (analyst r) = analyst_pk (leave_analyst lr)
                 \<and> start_date lr \<le> date r \<and> date r \<le> end_date lr
                 \<and> (status r = ''SCHEDULED'' \<or> status r = ''CONFIRMED''))
       (assignments db)"

definition assess_impact :: "LeaveRequest \<Rightarrow> database \<Rightarrow> nat \<times> LeaveRequest" where
  "assess_impact lr db =
     (length (impacted lr db),
      lr\<lparr>affected_assignments := List.map_filter pk (impacted lr db)\<rparr>)"

text \<open>\<^verbatim>\<open>self.affected_assignments.all()\<close>: the rows whose primary key the relation holds.\<close>

definition affected_rows :: "LeaveRequest \<Rightarrow> database \<Rightarrow> MonitoringAssignment list" where
  "affected_rows lr db =
     filter (\<lambda>r. case pk r of None \<Rightarrow> False | Some i \<Rightarrow> i \<in> set (affected_assignments lr))
       (assignments db)"

text \<open>
  The loop of \<^verbatim>\<open>LeaveRequest._arrange_coverage\<close> over the rows fetched before it
  starts; \<open>cover\<close> is \<^verbatim>\<open>self.covered_by\<close> and \<open>who\<close> is \<^verbatim>\<open>self.analyst\<close>. The pair is
  the outcome and the database when the loop ends or raises.
\<close>

fun arrange_coverage ::
  "Analyst \<Rightarrow> Analyst \<Rightarrow> MonitoringAssignment list \<Rightarrow> database \<Rightarrow> (error + unit) \<times> database" where
  "arrange_coverage cover who [] db = (Inr (), db)"
| "arrange_coverage cover who (assignment # rest) db =
     (case objects_create db
             (new_assignment (date assignment) (monitoring_type assignment) cover
                (window_start assignment) (window_end assignment) ''CONFIRMED''
                (''Covering for '' @ display_name who
                 @ '' on leave. Original assignment ID: ''
                 @ (case pk assignment of None \<Rightarrow> ''None'' | Some i \<Rightarrow> str_nat i))
                (is_monday_assignment assignment) (is_extended_window assignment)) of
        Inl err \<Rightarrow> (Inl err, db)
      | Inr (covering, db1) \<Rightarrow>
          (case save db1
                  (assignment\<lparr>status := ''CANCELLED'',
                              assignment_notes :=
                                ''Cancelled due to leave. Covered by '' @ display_name cover\<rparr>) of
             Inl err \<Rightarrow> (Inl err, db1)
           | Inr (saved, db2) \<Rightarrow> arrange_coverage cover who rest db2))"

text \<open>
  \<^verbatim>\<open>LeaveRequest.approve_leave\<close>, outside a transaction as \<open>approve_swap\<close>. The
  request is saved as APPROVED before the coverage is arranged.
\<close>

definition approve_leave ::
  "LeaveRequest \<Rightarrow> Analyst \<Rightarrow> Analyst option \<Rightarrow> timestamp \<Rightarrow> database \<Rightarrow>
   (error + nat) \<times> LeaveRequest \<times> database" where
  "approve_leave lr approved_by_analyst coverage_analyst now db =
     (if leave_status lr \<noteq> ''PENDING'' then (Inl NotPending, lr, db)
      else
        (let (affected_count, lr1) = assess_impact lr db;
             lr2 = (case coverage_analyst of
                      None \<Rightarrow> lr1
                    | Some c \<Rightarrow>
                        lr1\<lparr>covered_by := Some c,
                            coverage_notes :=
                              ''Coverage arranged by '' @ display_name approved_by_analyst\<rparr>);
             lr3 = lr2\<lparr>leave_approved_by := Some approved_by_analyst,
                       leave_status := ''APPROVED'',
                       updated_at := Some now\<rparr>
         in case (if auto_adjust_pattern lr3 then covered_by lr3 else None) of
              None \<Rightarrow> (Inr affected_count, lr3, db)
            | Some cover \<Rightarrow>
                (case arrange_coverage cover (leave_analyst lr3) (affected_rows lr3 db) db of
                   (Inl err, db') \<Rightarrow> (Inl err, lr3, db')
                 | (Inr u, db') \<Rightarrow> (Inr affected_count, lr3, db'))))"

section \<open>ScheduleGenerator\<close>

record ScheduleGenerator =
  pattern :: SchedulePattern
  last_generated :: "timestamp option"

text \<open>
  One pass of the body of the \<^verbatim>\<open>while\<close> loop of \<^verbatim>\<open>generate_schedule\<close> for a date
  without assignments. \<^verbatim>\<open>.filter(...).first()\<close> is the first matching row or \<open>None\<close>.
\<close>

definition generate_day :: "SchedulePattern \<Rightarrow> pydate \<Rightarrow> database \<Rightarrow> error + database" where
  "generate_day sp current_date db =
     (case get_assignments_for_date sp current_date of
        Inl err \<Rightarrow> Inl err
      | Inr (em_index, dm_index) \<Rightarrow>
          (case find (\<lambda>a. pattern_position a = em_index \<and> is_active a) (analysts db) of
             None \<Rightarrow> Inl (AnalystsNotFound em_index dm_index)
           | Some em_analyst \<Rightarrow>
          (case find (\<lambda>a. pattern_position a = dm_index \<and> is_active a) (analysts db) of
             None \<Rightarrow> Inl (AnalystsNotFound em_index dm_index)
           | Some dm_analyst \<Rightarrow>
          (case find (\<lambda>t. code t = ''EM'') (monitoring_types db) of
             None \<Rightarrow> Inl TypesNotConfigured
           | Some em_type \<Rightarrow>
          (case find (\<lambda>t. code t = ''DM'') (monitoring_types db) of
             None \<Rightarrow> Inl TypesNotConfigured
           | Some dm_type \<Rightarrow>
          (case get_time_window_for_date em_type current_date of
             Inl err \<Rightarrow> Inl err
           | Inr (em_start, em_end) \<Rightarrow>
          (case get_time_window_for_date dm_type current_date of
             Inl err \<Rightarrow> Inl err
           | Inr (dm_start, dm_end) \<Rightarrow>
          (case objects_create db
                  (new_assignment current_date em_type em_analyst (Some em_start) (Some em_end)
                     ''CONFIRMED'' [] False False) of
             Inl err \<Rightarrow> Inl err
           | Inr (em_row, db1) \<Rightarrow>
          (case objects_create db1
                  (new_assignment current_date dm_type dm_analyst (Some dm_start) (Some dm_end)
                     ''CONFIRMED'' [] False False) of
             Inl err \<Rightarrow> Inl err
           | Inr (dm_row, db2) \<Rightarrow> Inr db2)))))))))"

text \<open>
  The \<^verbatim>\<open>while current_date <= end_date\<close> loop (\<open>end_date'\<close> is its \<^verbatim>\<open>end_date\<close>); \<open>created\<close> is
  \<^verbatim>\<open>assignments_created\<close>. \<^verbatim>\<open>current_date += timedelta(days=1)\<close> raises at
  \<^verbatim>\<open>date.max\<close>.
\<close>

function generate_loop ::
  "SchedulePattern \<Rightarrow> pydate \<Rightarrow> pydate \<Rightarrow> int \<Rightarrow> database \<Rightarrow> error + (int \<times> database)" where
  "generate_loop sp current_date end_date' created db =
     (if current_date \<le> end_date' then
        (if filter (\<lambda>r. date r = current_date) (assignments db) \<noteq> [] then
           (if current_date + 1 \<le> date_max
            then generate_loop sp (current_date + 1) end_date' created db
            else Inl DateOverflow)
         else
           (case generate_day sp current_date db of
              Inl err \<Rightarrow> Inl err
            | Inr db2 \<Rightarrow>
                (if current_date + 1 \<le> date_max
                 then generate_loop sp (current_date + 1) end_date' (created + 2) db2
                 else Inl DateOverflow)))
      else Inr (created, db))"
  by pat_completeness auto
termination
  by (relation "measure (\<lambda>(sp, current_date, end_date', created, db). nat (end_date' + 1 - current_date))")
     auto

declare generate_loop.simps [simp del]

text \<open>
  \<^verbatim>\<open>ScheduleGenerator.generate_schedule\<close>. The loop runs inside
  \<^verbatim>\<open>transaction.atomic()\<close>: when it raises, the database is the one before the call.
\<close>

definition generate_schedule ::
  "ScheduleGenerator \<Rightarrow> pydate \<Rightarrow> pydate \<Rightarrow> timestamp \<Rightarrow> database \<Rightarrow>
   (error + int) \<times> ScheduleGenerator \<times> database" where
  "generate_schedule gen start_date' end_date' now db =
     (case generate_loop (pattern gen) start_date' end_date' 0 db of
        Inl err \<Rightarrow> (Inl err, gen, db)
      | Inr (assignments_created, db') \<Rightarrow>
          (Inr assignments_created, gen\<lparr>last_generated := Some now\<rparr>, db'))"

section \<open>Invariants of the assignment table\<close>

text \<open>
  \<open>unique_keys\<close>: no two rows share \<open>(date, monitoring_type)\<close>. \<open>db_ok\<close> adds what the
  database guarantees besides: primary keys are set, distinct and below the counter,
  and the two window columns are not null.
\<close>

definition unique_keys :: "database \<Rightarrow> bool" where
  "unique_keys db = distinct (map row_key (assignments db))"

definition row_ok :: "nat \<Rightarrow> MonitoringAssignment \<Rightarrow> bool" where
  "row_ok n r =
     ((case pk r of None \<Rightarrow> False | Some i \<Rightarrow> i < n)
      \<and> window_start r \<noteq> None \<and> window_end r \<noteq> None)"

definition db_ok :: "database \<Rightarrow> bool" where
  "db_ok db =
     (unique_keys db \<and> distinct (map pk (assignments db))
      \<and> list_all (row_ok (next_pk db)) (assignments db))"

definition monday_flag_ok :: "MonitoringAssignment \<Rightarrow> bool" where
  "monday_flag_ok r = (is_monday_assignment r = (weekday (date r) = 0))"

definition monday_ok :: "database \<Rightarrow> bool" where
  "monday_ok db = list_all monday_flag_ok (assignments db)"

text \<open>The rows of one date: \<^verbatim>\<open>MonitoringAssignment.objects.filter(date=d)\<close>.\<close>

definition rows_on :: "database \<Rightarrow> pydate \<Rightarrow> MonitoringAssignment list" where
  "rows_on db d = filter (\<lambda>r. date r = d) (assignments db)"

section \<open>Example data\<close>

text \<open>
  The reference data of \<^verbatim>\<open>create_initial_data.py\<close>: four analysts in pattern order, the
  two monitoring types with their Monday offsets, and a pattern whose tables are filled
  by \<^verbatim>\<open>SchedulePattern.save\<close>, with Monday 2024-01-01 as reference date.
\<close>

definition example_analyst :: "nat \<Rightarrow> string \<Rightarrow> Analyst" where
  "example_analyst i nm =
     \<lparr>analyst_pk = i, display_name = nm, is_active = True, pattern_position = int i - 1\<rparr>"

definition example_em :: MonitoringType where
  "example_em =
     \<lparr>mt_pk = 1, code = ''EM'', default_start_hour = 17, default_start_minute = 0,
      default_end_hour = 7, default_end_minute = 0,
      monday_start_offset_hours = 58, monday_end_offset_hours = 0\<rparr>"

definition example_dm :: MonitoringType where
  "example_dm =
     \<lparr>mt_pk = 2, code = ''DM'', default_start_hour = 17, default_start_minute = 0,
      default_end_hour = 17, default_end_minute = 0,
      monday_start_offset_hours = 48, monday_end_offset_hours = 0\<rparr>"

definition example_db :: database where
  "example_db =
     \<lparr>assignments = [], next_pk = 1,
      analysts = [example_analyst 1 ''Ebisa'', example_analyst 2 ''Gezagn'',
                  example_analyst 3 ''Natnael'', example_analyst 4 ''Nurahmed''],
      monitoring_types = [example_em, example_dm]\<rparr>"

definition example_pattern :: SchedulePattern where
  "example_pattern =
     SchedulePattern_save
       \<lparr>reference_start_date = ymd 2024 1 1, em_pattern = [], dm_pattern = []\<rparr>"

definition example_generator :: ScheduleGenerator where
  "example_generator = \<lparr>pattern = example_pattern, last_generated = None\<rparr>"

text \<open>
  An EM assignment for Tuesday 2024-01-09 with a window of 15 hours
  (Monday 16:00 to Tuesday 07:00), not yet saved.
\<close>

definition example_tuesday :: MonitoringAssignment where
  "example_tuesday =
     new_assignment (ymd 2024 1 9) example_em (example_analyst 1 ''Ebisa'')
       (Some (ymd 2024 1 8 * 1440 + 16 * 60)) (Some (ymd 2024 1 9 * 1440 + 7 * 60))
       ''CONFIRMED'' [] False False"

text \<open>
  The EM row of Monday 2024-01-08 as \<^verbatim>\<open>generate_schedule\<close> stores it (slot 3,
  Saturday 07:00 to Monday 07:00), and a database that holds it.
\<close>

definition example_monday_row :: MonitoringAssignment where
  "example_monday_row =
     \<lparr>pk = Some 1, date = ymd 2024 1 8, monitoring_type = example_em,
      analyst = example_analyst 4 ''Nurahmed'',
      window_start = Some (ymd 2024 1 6 * 1440 + 7 * 60),
      window_end = Some (ymd 2024 1 8 * 1440 + 7 * 60),
      duration_hours = Some 4800, is_monday_assignment = True, is_extended_window = True,
      status = ''CONFIRMED'', assignment_notes = []\<rparr>"

definition example_db1 :: database where
  "example_db1 = example_db\<lparr>assignments := [example_monday_row], next_pk := 2\<rparr>"

definition example_swap :: ShiftSwapRequest where
  "example_swap =
     \<lparr>original_assignment = example_monday_row,
      requested_analyst = example_analyst 3 ''Natnael'',
      swap_status = ''PENDING'', reason = ''Exam'',
      reciprocal_assignment = None,
      requested_by = example_analyst 4 ''Nurahmed'',
      swap_approved_by = None, responded_at = None\<rparr>"

definition example_leave :: LeaveRequest where
  "example_leave =
     \<lparr>leave_analyst = example_analyst 4 ''Nurahmed'',
      start_date = ymd 2024 1 8, end_date = ymd 2024 1 9,
      leave_status = ''PENDING'', covered_by = None, coverage_notes = [],
      auto_adjust_pattern = True, affected_assignments = [],
      leave_approved_by = None, updated_at = None\<rparr>"

section \<open>Calendar facts\<close>

lemma ymd_vals:
  "ymd 2024 1 1 = 738886" "ymd 2023 12 31 = 738885" "ymd 2024 1 6 = 738891"
  "ymd 2024 1 8 = 738893" "ymd 2024 1 9 = 738894"
  by (simp_all add: ymd_def days_before_year_def days_before_month_def is_leap_def)

section \<open>The rotation pattern\<close>

lemma gps_length:
  "length (fst (generate_pattern_sequence n)) = n"
  "length (snd (generate_pattern_sequence n)) = n"
  by (simp_all add: generate_pattern_sequence_def)

lemma gps_empty:
  "(fst (generate_pattern_sequence n) = []) = (n = 0)"
  "(snd (generate_pattern_sequence n) = []) = (n = 0)"
  by (simp_all add: generate_pattern_sequence_def)

lemma gps_get:
  assumes "0 \<le> j" "j < int n"
  shows "list_get (fst (generate_pattern_sequence n)) j = Inr (j mod 4)"
    and "list_get (snd (generate_pattern_sequence n)) j = Inr ((j mod 4 + 3) mod 4)"
proof -
  have "nat j < n" using assms by linarith
  then have "[0..<n] ! nat j = nat j" by simp
  then show "list_get (fst (generate_pattern_sequence n)) j = Inr (j mod 4)"
    and "list_get (snd (generate_pattern_sequence n)) j = Inr ((j mod 4 + 3) mod 4)"
    using assms \<open>nat j < n\<close> by (simp_all add: generate_pattern_sequence_def list_get_def)
qed

lemma example_pattern_tables:
  "reference_start_date example_pattern = 738886"
  "em_pattern example_pattern = fst (generate_pattern_sequence 365)"
  "dm_pattern example_pattern = snd (generate_pattern_sequence 365)"
  by (simp_all add: example_pattern_def SchedulePattern_save_def ymd_vals)

text \<open>
  C1 (the code departs from the claim). The claim asks for the EM slot
  \<open>((daysBetween mod 4) + 4) mod 4\<close> on every date before the reference date, which is 3
  on the day before it. The code indexes the stored table at
  \<open>(- days_diff) mod pattern_length\<close>: with the 365 entries that \<^verbatim>\<open>SchedulePattern.save\<close>
  generates, the day before the reference date 2024-01-01 reads entry 364, which is
  slot 0, the slot of the reference date itself; with empty tables the fallback
  \<open>days_diff mod 4\<close> of the absolute difference gives slot 1.
\<close>

theorem em_slot_day_before_reference:
  "get_assignments_for_date example_pattern (ymd 2023 12 31) = Inr (0, 3)
   \<and> get_assignments_for_date
        \<lparr>reference_start_date = ymd 2024 1 1, em_pattern = [], dm_pattern = []\<rparr>
        (ymd 2023 12 31) = Inr (1, 0)
   \<and> ((ymd 2023 12 31 - ymd 2024 1 1) mod 4 + 4) mod 4 = 3"
proof -
  have j: "(0::int) \<le> 364" "(364::int) < int 365" by simp_all
  have "get_assignments_for_date example_pattern (ymd 2023 12 31) = Inr (0, 3)"
    using gps_get[OF j]
    by (simp add: get_assignments_for_date_def example_pattern_tables ymd_vals gps_empty
        gps_length)
  moreover have "get_assignments_for_date
        \<lparr>reference_start_date = ymd 2024 1 1, em_pattern = [], dm_pattern = []\<rparr>
        (ymd 2023 12 31) = Inr (1, 0)"
    by (simp add: get_assignments_for_date_def ymd_vals)
  moreover have "((ymd 2023 12 31 - ymd 2024 1 1) mod 4 + 4) mod 4 = 3"
    by (simp add: ymd_vals)
  ultimately show ?thesis by simp
qed

text \<open>
  C6. Whatever the reference date, the date \<open>d\<close> (before the reference date, inside the
  table or beyond it) and the number of days \<^verbatim>\<open>generate_pattern_sequence\<close> was asked
  for, \<^verbatim>\<open>get_assignments_for_date\<close> returns a pair whose DM slot is
  \<open>(EM slot + 3) mod 4\<close>.
\<close>

theorem dm_slot_is_em_slot_plus_3:
  "\<exists>em_index.
     get_assignments_for_date
       \<lparr>reference_start_date = ref,
        em_pattern = fst (generate_pattern_sequence days),
        dm_pattern = snd (generate_pattern_sequence days)\<rparr> d
     = Inr (em_index, (em_index + 3) mod 4)"
proof (cases "days = 0")
  case True
  then show ?thesis
    by (simp add: get_assignments_for_date_def generate_pattern_sequence_def Let_def)
next
  case False
  then have pos: "0 < int days" by simp
  show ?thesis
  proof (cases "d - ref < 0")
    case True
    have j: "0 \<le> (- \<bar>d - ref\<bar>) mod int days" "(- \<bar>d - ref\<bar>) mod int days < int days"
      using pos by simp_all
    show ?thesis
      using True False gps_get[OF j]
      by (simp add: get_assignments_for_date_def Let_def gps_empty gps_length)
  next
    case nonneg: False
    show ?thesis
    proof (cases "d - ref < int days")
      case True
      have j: "0 \<le> d - ref" "d - ref < int days" using nonneg True by simp_all
      show ?thesis
        using nonneg True False gps_get[OF j]
        by (simp add: get_assignments_for_date_def Let_def gps_empty gps_length)
    next
      case False
      then show ?thesis using nonneg
        by (simp add: get_assignments_for_date_def Let_def gps_empty gps_length)
    qed
  qed
qed

section \<open>Saving an assignment\<close>

lemma save_result:
  assumes "save db a = Inr (a', db')"
  shows "\<exists>a1. pre_save a = Inr a1 \<and> a' = a1\<lparr>pk := pk a'\<rparr>"
  using assms
  by (auto simp: save_def db_save_def Let_def split: sum.splits option.splits if_splits)

lemma set_duration_fields:
  assumes "set_duration a = Inr (a1, h)"
  shows "date a1 = date a" "monitoring_type a1 = monitoring_type a"
    "duration_hours a1 = Some h" "is_extended_window a1 = is_extended_window a"
    "pk a1 = pk a" "window_start a1 \<noteq> None" "window_end a1 \<noteq> None"
  using assms
  by (auto simp: set_duration_def split: option.splits sum.splits prod.splits)

lemma set_flags_fields:
  "date (set_flags a h) = date a" "monitoring_type (set_flags a h) = monitoring_type a"
  "duration_hours (set_flags a h) = duration_hours a" "pk (set_flags a h) = pk a"
  "window_start (set_flags a h) = window_start a" "window_end (set_flags a h) = window_end a"
  "is_monday_assignment (set_flags a h) = (weekday (date a) = 0)"
  by (simp_all add: set_flags_def Let_def)

lemma pre_save_fields:
  assumes "pre_save a = Inr a1"
  shows "date a1 = date a" "monitoring_type a1 = monitoring_type a" "pk a1 = pk a"
    "is_monday_assignment a1 = (weekday (date a) = 0)"
    "window_start a1 \<noteq> None" "window_end a1 \<noteq> None"
proof -
  obtain a0 h0 where sd: "set_duration a = Inr (a0, h0)" and a1: "a1 = set_flags a0 h0"
    using assms by (auto simp: pre_save_def split: sum.splits prod.splits)
  show "date a1 = date a" "monitoring_type a1 = monitoring_type a" "pk a1 = pk a"
    "is_monday_assignment a1 = (weekday (date a) = 0)"
    "window_start a1 \<noteq> None" "window_end a1 \<noteq> None"
    using set_duration_fields[OF sd] by (simp_all add: a1 set_flags_fields)
qed

lemma pre_save_extended:
  assumes "pre_save a = Inr a1" "weekday (date a) = 0" "duration_hours a1 = Some h"
    "(code (monitoring_type a) = ''EM'' \<and> 1400 < h)
     \<or> (code (monitoring_type a) = ''DM'' \<and> 2400 < h)"
  shows "is_extended_window a1"
proof -
  obtain a0 h0 where sd: "set_duration a = Inr (a0, h0)" and a1: "a1 = set_flags a0 h0"
    using assms(1) by (auto simp: pre_save_def split: sum.splits prod.splits)
  have "h0 = h"
    using assms(3) a1 set_duration_fields(3)[OF sd] by (simp add: set_flags_fields)
  then show ?thesis
    using assms(2,4) a1 set_duration_fields(1,2)[OF sd]
    by (auto simp: set_flags_def Let_def)
qed

lemma window_start_monday_58:
  assumes "default_start_hour mt = 17" "default_start_minute mt = 0"
    "monday_start_offset_hours mt = 58" "weekday d = 0" "date_min + 2 \<le> d" "d \<le> date_max"
  shows "window_start_for mt d = Inr ((d - 2) * 1440 + 7 * 60)"
  using assms by (simp add: window_start_for_def date_add_days_def combine_def Let_def)

lemma window_end_monday:
  assumes "default_end_hour mt = 7" "default_end_minute mt = 0"
    "monday_end_offset_hours mt \<le> 40" "d < date_max" "date_min \<le> d"
  shows "\<exists>e. window_end_for mt d = Inr e \<and> d * 1440 + 7 * 60 \<le> e"
  using assms by (auto simp: window_end_for_def date_add_days_def combine_def Let_def)

lemma round_hours_mono: "m \<le> n \<Longrightarrow> round_hours m \<le> round_hours n"
  unfolding round_hours_def by (intro zdiv_mono1) simp_all

lemma example_em_fields:
  "default_start_hour example_em = 17" "default_start_minute example_em = 0"
  "default_end_hour example_em = 7" "default_end_minute example_em = 0"
  "monday_start_offset_hours example_em = 58" "monday_end_offset_hours example_em = 0"
  "code example_em = ''EM''" "mt_pk example_em = 1"
  by (simp_all add: example_em_def)

lemma save_example_monday:
  "save example_db
     ((new_assignment (ymd 2024 1 8) example_em (example_analyst 4 ''Nurahmed'') None None
         ''CONFIRMED'' [] False False)
      \<lparr>window_start := Some ((ymd 2024 1 8 - 2) * 1440 + 7 * 60),
       window_end := Some (ymd 2024 1 8 * 1440 + 7 * 60)\<rparr>)
   = Inr (example_monday_row, example_db1)"
  by (simp add: save_def pre_save_def set_duration_def set_flags_def db_save_def
      new_assignment_def example_db_def example_db1_def example_monday_row_def ymd_vals
      weekday_def round_hours_def example_em_fields Let_def)

lemma create_example_monday:
  "objects_create example_db
     (new_assignment (ymd 2024 1 8) example_em (example_analyst 4 ''Nurahmed'')
        (Some (ymd 2024 1 6 * 1440 + 7 * 60)) (Some (ymd 2024 1 8 * 1440 + 7 * 60))
        ''CONFIRMED'' [] True False)
   = Inr (example_monday_row, example_db1)"
  by (simp add: objects_create_def save_def pre_save_def set_duration_def set_flags_def
      db_save_def new_assignment_def example_db_def example_db1_def example_monday_row_def
      ymd_vals weekday_def round_hours_def example_em_fields Let_def)

text \<open>
  C7. For a monitoring type with default start 17:00, default end 07:00 and a Monday
  start offset of 58 hours (code EM or DM, Monday end offset at most 40 hours, so that
  the end hour stays on the clock), the window of a Monday \<open>d\<close> starts at 07:00 of the
  Saturday \<open>d - 2\<close>, 58 hours before Monday 17:00; and every assignment of that date and
  type that is saved with this window has \<open>duration_hours\<close> above 14 and
  \<open>is_extended_window\<close> set. The witness is Monday 2024-01-08 with the EM type of the
  initial data: the window starts on 2024-01-06 at 07:00.
\<close>

theorem monday_window_example:
  assumes cfg: "default_start_hour mt = 17" "default_start_minute mt = 0"
      "default_end_hour mt = 7" "default_end_minute mt = 0"
      "monday_start_offset_hours mt = 58" "monday_end_offset_hours mt \<le> 40"
      "code mt = ''EM'' \<or> code mt = ''DM''"
    and d: "weekday d = 0" "date_min + 2 \<le> d" "d < date_max"
    and a: "date a = d" "monitoring_type a = mt"
  shows "\<exists>e. get_time_window_for_date mt d = Inr ((d - 2) * 1440 + 7 * 60, e)
          \<and> (\<forall>db a' db'.
                save db (a\<lparr>window_start := Some ((d - 2) * 1440 + 7 * 60),
                           window_end := Some e\<rparr>) = Inr (a', db')
                \<longrightarrow> (\<exists>h. duration_hours a' = Some h \<and> 1400 < h) \<and> is_extended_window a')"
proof -
  let ?s = "(d - 2) * 1440 + 7 * 60"
  have s: "window_start_for mt d = Inr ?s"
    using window_start_monday_58[of mt d] cfg d by simp
  obtain e where e: "window_end_for mt d = Inr e" and le: "d * 1440 + 7 * 60 \<le> e"
    using window_end_monday[of mt d] cfg d by auto
  have w: "get_time_window_for_date mt d = Inr (?s, e)"
    by (simp add: get_time_window_for_date_def s e)
  have "round_hours 2880 \<le> round_hours (e - ?s)"
    by (rule round_hours_mono) (use le in simp)
  then have h: "4800 \<le> round_hours (e - ?s)" by (simp add: round_hours_def)
  let ?a = "a\<lparr>window_start := Some ?s, window_end := Some e\<rparr>"
  have ps: "pre_save ?a
      = Inr (set_flags (?a\<lparr>duration_hours := Some (round_hours (e - ?s))\<rparr>)
               (round_hours (e - ?s)))"
    by (simp add: pre_save_def set_duration_def)
  {
    fix db a' db'
    assume sv: "save db ?a = Inr (a', db')"
    obtain a1 where p: "pre_save ?a = Inr a1" and a': "a' = a1\<lparr>pk := pk a'\<rparr>"
      using save_result[OF sv] by blast
    have a1: "a1 = set_flags (?a\<lparr>duration_hours := Some (round_hours (e - ?s))\<rparr>)
                     (round_hours (e - ?s))"
      using p ps by simp
    have dur1: "duration_hours a1 = Some (round_hours (e - ?s))"
      by (simp add: a1 set_flags_fields)
    have ext1: "is_extended_window a1"
      using pre_save_extended[OF p _ dur1] cfg(7) d(1) a h by auto
    have "duration_hours a' = duration_hours a1"
      "is_extended_window a' = is_extended_window a1"
      by (subst a', simp)+
    then have "(\<exists>h. duration_hours a' = Some h \<and> 1400 < h) \<and> is_extended_window a'"
      using dur1 ext1 h by simp
  }
  then show ?thesis using w by blast
qed

theorem monday_window_example_witness:
  "weekday (ymd 2024 1 8) = 0
   \<and> get_time_window_for_date example_em (ymd 2024 1 8)
       = Inr (ymd 2024 1 6 * 1440 + 7 * 60, ymd 2024 1 8 * 1440 + 7 * 60)
   \<and> save example_db
       ((new_assignment (ymd 2024 1 8) example_em (example_analyst 4 ''Nurahmed'') None None
           ''CONFIRMED'' [] False False)
        \<lparr>window_start := Some ((ymd 2024 1 8 - 2) * 1440 + 7 * 60),
         window_end := Some (ymd 2024 1 8 * 1440 + 7 * 60)\<rparr>)
       = Inr (example_monday_row, example_db1)
   \<and> duration_hours example_monday_row = Some 4800
   \<and> is_extended_window example_monday_row"
proof -
  let ?a = "new_assignment (ymd 2024 1 8) example_em (example_analyst 4 ''Nurahmed'') None None
              ''CONFIRMED'' [] False False"
  have monday: "weekday (ymd 2024 1 8) = 0" by (simp add: weekday_def ymd_vals)
  have range: "date_min + 2 \<le> ymd 2024 1 8" "ymd 2024 1 8 < date_max"
    by (simp_all add: date_min_def date_max_def ymd_vals)
  have a: "date ?a = ymd 2024 1 8" "monitoring_type ?a = example_em"
    by (simp_all add: new_assignment_def)
  obtain e where w: "get_time_window_for_date example_em (ymd 2024 1 8)
        = Inr ((ymd 2024 1 8 - 2) * 1440 + 7 * 60, e)"
    and all: "\<forall>db a' db'.
        save db (?a\<lparr>window_start := Some ((ymd 2024 1 8 - 2) * 1440 + 7 * 60),
                    window_end := Some e\<rparr>) = Inr (a', db')
        \<longrightarrow> (\<exists>h. duration_hours a' = Some h \<and> 1400 < h) \<and> is_extended_window a'"
    using monday_window_example[of example_em "ymd 2024 1 8" ?a, OF _ _ _ _ _ _ _ monday range a]
    by (auto simp: example_em_fields)
  have wv: "get_time_window_for_date example_em (ymd 2024 1 8)
        = Inr (ymd 2024 1 6 * 1440 + 7 * 60, ymd 2024 1 8 * 1440 + 7 * 60)"
    by (simp add: get_time_window_for_date_def window_start_for_def window_end_for_def
        date_add_days_def combine_def weekday_def ymd_vals example_em_fields date_min_def
        date_max_def)
  have e: "e = ymd 2024 1 8 * 1440 + 7 * 60" using w wv by simp
  have "is_extended_window example_monday_row"
    using all save_example_monday unfolding e by blast
  moreover have "duration_hours example_monday_row = Some 4800"
    by (simp add: example_monday_row_def)
  ultimately show ?thesis using monday wv save_example_monday by simp
qed

text \<open>
  C8 (as amended). \<^verbatim>\<open>save\<close> looks at the thresholds only inside
  \<^verbatim>\<open>if self.is_monday_assignment\<close>: for every saved assignment whose date is a Monday,
  \<open>is_extended_window\<close> is true when \<open>duration_hours\<close> exceeds 14 hours for code EM or
  24 hours for code DM.
\<close>

theorem extended_window_on_monday:
  assumes "save db a = Inr (a', db')" "weekday (date a) = 0" "duration_hours a' = Some h"
    "(code (monitoring_type a) = ''EM'' \<and> 1400 < h)
     \<or> (code (monitoring_type a) = ''DM'' \<and> 2400 < h)"
  shows "is_extended_window a'"
proof -
  obtain a1 where p: "pre_save a = Inr a1" and a': "a' = a1\<lparr>pk := pk a'\<rparr>"
    using save_result[OF assms(1)] by blast
  have eq: "duration_hours a' = duration_hours a1"
    "is_extended_window a' = is_extended_window a1"
    by (subst a', simp)+
  have "is_extended_window a1"
    using pre_save_extended[OF p assms(2) _ assms(4)] assms(3) eq(1) by simp
  then show ?thesis using eq(2) by simp
qed

theorem extended_window_on_monday_witness:
  "save example_db
     ((new_assignment (ymd 2024 1 8) example_em (example_analyst 4 ''Nurahmed'') None None
         ''CONFIRMED'' [] False False)
      \<lparr>window_start := Some ((ymd 2024 1 8 - 2) * 1440 + 7 * 60),
       window_end := Some (ymd 2024 1 8 * 1440 + 7 * 60)\<rparr>)
     = Inr (example_monday_row, example_db1)
   \<and> weekday (ymd 2024 1 8) = 0
   \<and> duration_hours example_monday_row = Some 4800
   \<and> code example_em = ''EM'' \<and> (1400::int) < 4800
   \<and> is_extended_window example_monday_row"
proof -
  have monday: "weekday (date
     ((new_assignment (ymd 2024 1 8) example_em (example_analyst 4 ''Nurahmed'') None None
         ''CONFIRMED'' [] False False)
      \<lparr>window_start := Some ((ymd 2024 1 8 - 2) * 1440 + 7 * 60),
       window_end := Some (ymd 2024 1 8 * 1440 + 7 * 60)\<rparr>)) = 0"
    by (simp add: new_assignment_def weekday_def ymd_vals)
  have dur: "duration_hours example_monday_row = Some 4800"
    by (simp add: example_monday_row_def)
  have "is_extended_window example_monday_row"
    by (rule extended_window_on_monday[OF save_example_monday monday dur])
       (simp add: new_assignment_def example_em_fields)
  then show ?thesis
    using save_example_monday dur by (simp add: weekday_def ymd_vals example_em_fields)
qed

text \<open>
  The claim of C8 without the restriction to Mondays fails: the EM assignment of Tuesday
  2024-01-09 with a window of 15 hours is saved with \<open>duration_hours = 15.00\<close>, above the
  threshold of 14, and \<open>is_extended_window\<close> stays false.
\<close>

theorem extended_window_tuesday_counterexample:
  "save example_db example_tuesday
     = Inr (example_tuesday\<lparr>pk := Some 1, duration_hours := Some 1500\<rparr>,
            example_db\<lparr>assignments :=
                         [example_tuesday\<lparr>pk := Some 1, duration_hours := Some 1500\<rparr>],
                       next_pk := 2\<rparr>)
   \<and> code (monitoring_type example_tuesday) = ''EM''
   \<and> (1400::int) < 1500
   \<and> \<not> is_extended_window (example_tuesday\<lparr>pk := Some 1, duration_hours := Some 1500\<rparr>)"
  by (simp add: save_def pre_save_def set_duration_def set_flags_def db_save_def
      new_assignment_def example_db_def example_tuesday_def ymd_vals
      weekday_def round_hours_def example_em_fields Let_def)

section \<open>Swap requests\<close>

text \<open>
  C9. A swap request whose status is not PENDING is refused with
  \<^verbatim>\<open>ValueError("Swap request is not pending")\<close>; the request object and the database
  (every assignment, no reciprocal row) are returned as they were.
\<close>

theorem approve_swap_not_pending:
  assumes "swap_status req \<noteq> ''PENDING''"
  shows "approve_swap req approved_by_analyst now db = (Inl NotPending, req, db)"
  using assms by (simp add: approve_swap_def)

theorem approve_swap_not_pending_witness:
  "swap_status (example_swap\<lparr>swap_status := ''REJECTED''\<rparr>) \<noteq> ''PENDING''
   \<and> approve_swap (example_swap\<lparr>swap_status := ''REJECTED''\<rparr>)
        (example_analyst 3 ''Natnael'') 0 example_db1
      = (Inl NotPending, example_swap\<lparr>swap_status := ''REJECTED''\<rparr>, example_db1)"
proof -
  have h: "swap_status (example_swap\<lparr>swap_status := ''REJECTED''\<rparr>) \<noteq> ''PENDING''"
    by simp
  show ?thesis using h approve_swap_not_pending[OF h] by simp
qed

section \<open>Invariants are kept by every write\<close>

lemma row_key_pk_update [simp]: "row_key (a\<lparr>pk := p\<rparr>) = row_key a"
  by (simp add: row_key_def)

lemma row_ok_mono: "row_ok n r \<Longrightarrow> n \<le> m \<Longrightarrow> row_ok m r"
  by (auto simp: row_ok_def split: option.splits)

lemma distinct_keys_update:
  assumes "distinct (map row_key rows)" "distinct (map pk rows)"
    "\<forall>r\<in>set rows. row_key r = row_key a \<longrightarrow> pk r = Some i"
  shows "distinct (map row_key (map (\<lambda>r. if pk r = Some i then a else r) rows))"
  using assms
proof (induction rows)
  case Nil
  then show ?case by simp
next
  case (Cons r rs)
  show ?case
  proof (cases "pk r = Some i")
    case True
    then have no: "\<forall>r'\<in>set rs. pk r' \<noteq> Some i" using Cons.prems(2) by force
    then have same: "map (\<lambda>r. if pk r = Some i then a else r) rs = rs"
      by (simp add: map_idI)
    have "row_key a \<notin> set (map row_key rs)" using no Cons.prems(3) by auto
    then show ?thesis using True same Cons.prems(1) by simp
  next
    case False
    then have ne: "row_key r \<noteq> row_key a" using Cons.prems(3) by auto
    have "row_key r \<notin> row_key ` set rs" using Cons.prems(1) by simp
    then have "\<forall>x\<in>set rs. row_key (if pk x = Some i then a else x) \<noteq> row_key r"
      using ne by (metis image_eqI)
    then have "row_key r \<notin> set (map row_key (map (\<lambda>r. if pk r = Some i then a else r) rs))"
      by (auto simp del: map_map)
    moreover have "distinct (map row_key (map (\<lambda>r. if pk r = Some i then a else r) rs))"
      using Cons by simp
    ultimately show ?thesis using False by simp
  qed
qed

lemma pks_update:
  assumes "pk a = Some i"
  shows "map pk (map (\<lambda>r. if pk r = Some i then a else r) rows) = map pk rows"
  using assms by (induction rows) auto

lemma db_ok_db_save:
  assumes ok: "db_ok db" and sv: "db_save db a = Inr (a', db')"
    and win: "window_start a \<noteq> None" "window_end a \<noteq> None"
  shows "db_ok db'"
proof (cases "pk a")
  case None
  then have empty: "filter (\<lambda>r. row_key r = row_key a) (assignments db) = []"
    and a': "a' = a\<lparr>pk := Some (next_pk db)\<rparr>"
    and db': "db' = db\<lparr>assignments := assignments db @ [a'], next_pk := next_pk db + 1\<rparr>"
    using sv by (auto simp: db_save_def Let_def split: if_splits)
  have nokey: "row_key a' \<notin> set (map row_key (assignments db))"
    using empty by (auto simp: a' filter_empty_conv)
  have below: "\<forall>r\<in>set (assignments db). row_ok (next_pk db) r"
    using ok by (simp add: db_ok_def list_all_iff)
  then have nopk: "pk a' \<notin> set (map pk (assignments db))"
    by (auto simp: a' row_ok_def split: option.splits)
  have "row_ok (next_pk db + 1) a'" using win by (simp add: a' row_ok_def)
  moreover have "\<forall>r\<in>set (assignments db). row_ok (next_pk db + 1) r"
    using below row_ok_mono by force
  ultimately show ?thesis
    using ok nokey nopk by (simp add: db' db_ok_def unique_keys_def list_all_iff)
next
  case (Some i)
  show ?thesis
  proof (cases "filter (\<lambda>r. pk r = Some i) (assignments db) = []")
    case True
    then have empty: "filter (\<lambda>r. row_key r = row_key a) (assignments db) = []"
      and a': "a' = a"
      and db': "db' = db\<lparr>assignments := assignments db @ [a],
                          next_pk := max (next_pk db) (i + 1)\<rparr>"
      using sv Some by (auto simp: db_save_def Let_def split: if_splits)
    have nokey: "row_key a \<notin> set (map row_key (assignments db))"
      using empty by (auto simp: filter_empty_conv)
    have nopk: "pk a \<notin> set (map pk (assignments db))"
      using True Some by (auto simp: filter_empty_conv)
    have below: "\<forall>r\<in>set (assignments db). row_ok (next_pk db) r"
      using ok by (simp add: db_ok_def list_all_iff)
    have "row_ok (max (next_pk db) (i + 1)) a" using win Some by (simp add: row_ok_def)
    moreover have "\<forall>r\<in>set (assignments db). row_ok (max (next_pk db) (i + 1)) r"
      using below row_ok_mono by force
    ultimately show ?thesis
      using ok nokey nopk by (simp add: db' db_ok_def unique_keys_def list_all_iff)
  next
    case False
    then have other: "filter (\<lambda>r. row_key r = row_key a \<and> pk r \<noteq> Some i) (assignments db) = []"
      and a': "a' = a"
      and db': "db' = db\<lparr>assignments :=
                            map (\<lambda>r. if pk r = Some i then a else r) (assignments db)\<rparr>"
      using sv Some by (auto simp: db_save_def Let_def split: if_splits)
    have cond: "\<forall>r\<in>set (assignments db). row_key r = row_key a \<longrightarrow> pk r = Some i"
      using other by (auto simp: filter_empty_conv)
    have keys: "distinct (map row_key (map (\<lambda>r. if pk r = Some i then a else r) (assignments db)))"
      using distinct_keys_update[OF _ _ cond] ok by (simp add: db_ok_def unique_keys_def)
    have below: "\<forall>r\<in>set (assignments db). row_ok (next_pk db) r"
      using ok by (simp add: db_ok_def list_all_iff)
    obtain r0 where "r0 \<in> set (assignments db)" "pk r0 = Some i"
      using False by (auto simp: filter_empty_conv)
    then have "i < next_pk db" using below by (auto simp: row_ok_def)
    then have "row_ok (next_pk db) a" using win Some by (simp add: row_ok_def)
    then have rows: "\<forall>r\<in>set (map (\<lambda>r. if pk r = Some i then a else r) (assignments db)).
        row_ok (next_pk db) r"
      using below by auto
    show ?thesis
      using ok keys rows pks_update[OF Some]
      by (simp add: db' db_ok_def unique_keys_def list_all_iff del: map_map)
  qed
qed

lemma db_ok_save:
  assumes "db_ok db" "save db a = Inr (a', db')"
  shows "db_ok db'"
proof -
  obtain a1 where p: "pre_save a = Inr a1" and s: "db_save db a1 = Inr (a', db')"
    using assms(2) by (auto simp: save_def split: sum.splits)
  show ?thesis
    by (rule db_ok_db_save[OF assms(1) s]) (use pre_save_fields[OF p] in simp_all)
qed

lemma monday_ok_save:
  assumes "monday_ok db" "save db a = Inr (a', db')"
  shows "monday_ok db'"
proof -
  obtain a1 where p: "pre_save a = Inr a1" and s: "db_save db a1 = Inr (a', db')"
    using assms(2) by (auto simp: save_def split: sum.splits)
  have f: "monday_flag_ok a1"
    using pre_save_fields(1,4)[OF p] by (simp add: monday_flag_ok_def)
  then have f': "monday_flag_ok (a1\<lparr>pk := Some (next_pk db)\<rparr>)"
    by (simp add: monday_flag_ok_def)
  show ?thesis
    using s assms(1) f f'
    by (auto simp: db_save_def monday_ok_def list_all_iff Let_def
        split: option.splits if_splits)
qed

section \<open>Operations keep what \<open>save\<close> keeps\<close>

lemma objects_create_inv:
  assumes step: "\<forall>db a a' db'. I db \<longrightarrow> save db a = Inr (a', db') \<longrightarrow> I db'"
    and "I db" "objects_create db a = Inr (a', db')"
  shows "I db'"
  using assms(2,3) step unfolding objects_create_def by blast

lemma generate_day_inv:
  assumes step: "\<forall>db a a' db'. I db \<longrightarrow> save db a = Inr (a', db') \<longrightarrow> I db'"
    and "I db" "generate_day sp d db = Inr db2"
  shows "I db2"
proof -
  obtain a1 r1 db1 a2 r2 where c1: "objects_create db a1 = Inr (r1, db1)"
    and c2: "objects_create db1 a2 = Inr (r2, db2)"
    using assms(3)
    by (auto simp: generate_day_def split: sum.splits option.splits prod.splits)
  have db1: "I db1" by (rule objects_create_inv[where I = I, OF step assms(2) c1])
  show ?thesis by (rule objects_create_inv[where I = I, OF step db1 c2])
qed

lemma generate_loop_inv:
  assumes step: "\<forall>db a a' db'. I db \<longrightarrow> save db a = Inr (a', db') \<longrightarrow> I db'"
  shows "I db \<Longrightarrow> generate_loop sp cur e c db = Inr (n, db') \<Longrightarrow> I db'"
proof (induction sp cur e c db rule: generate_loop.induct)
  case (1 sp cur e c db)
  show ?case
  proof (cases "cur \<le> e")
    case False
    then show ?thesis using "1.prems" by (simp add: generate_loop.simps)
  next
    case le: True
    show ?thesis
    proof (cases "filter (\<lambda>r. date r = cur) (assignments db) \<noteq> []")
      case True
      then have nxt: "cur + 1 \<le> date_max"
        and run: "generate_loop sp (cur + 1) e c db = Inr (n, db')"
        using "1.prems"(2) le by (auto simp: generate_loop.simps[of sp cur] split: if_splits)
      show ?thesis by (rule "1.IH"(1)[OF le True nxt "1.prems"(1) run])
    next
      case False
      then obtain db2 where day: "generate_day sp cur db = Inr db2"
        and nxt: "cur + 1 \<le> date_max"
        and run: "generate_loop sp (cur + 1) e (c + 2) db2 = Inr (n, db')"
        using "1.prems"(2) le
        by (auto simp: generate_loop.simps[of sp cur] split: if_splits sum.splits)
      have "I db2" by (rule generate_day_inv[where I = I, OF step "1.prems"(1) day])
      then show ?thesis using "1.IH"(2)[OF le False day nxt _ run] by simp
    qed
  qed
qed

lemma generate_schedule_inv:
  assumes step: "\<forall>db a a' db'. I db \<longrightarrow> save db a = Inr (a', db') \<longrightarrow> I db'"
    and "I db"
  shows "I (snd (snd (generate_schedule gen s e now db)))"
proof (cases "generate_loop (pattern gen) s e 0 db")
  case (Inl err)
  then show ?thesis using assms(2) by (simp add: generate_schedule_def)
next
  case (Inr res)
  obtain n db' where res: "res = (n, db')" by (cases res)
  have "generate_loop (pattern gen) s e 0 db = Inr (n, db')" using Inr res by simp
  then have "I db'" by (rule generate_loop_inv[where I = I, OF step assms(2)])
  then show ?thesis using Inr res by (simp add: generate_schedule_def)
qed

lemma approve_swap_inv:
  assumes step: "\<forall>db a a' db'. I db \<longrightarrow> save db a = Inr (a', db') \<longrightarrow> I db'"
    and "I db"
  shows "I (snd (snd (approve_swap req ap now db)))"
proof (cases "swap_status req \<noteq> ''PENDING''")
  case True
  then show ?thesis using assms(2) by (simp add: approve_swap_def)
next
  case pending: False
  let ?orig = "original_assignment req"
  let ?new = "new_assignment (date ?orig) (monitoring_type ?orig) (requested_analyst req)
                   (window_start ?orig) (window_end ?orig) ''CONFIRMED''
                   (''Swapped with '' @ display_name (analyst ?orig) @ ''. '' @ reason req)
                   False False"
  let ?orig1 = "?orig\<lparr>analyst := requested_analyst req,
                         assignment_notes :=
                           ''Originally assigned to '' @ display_name (requested_by req)
                           @ '', swapped with '' @ display_name (requested_analyst req)\<rparr>"
  show ?thesis
  proof (cases "objects_create db ?new")
    case (Inl err)
    then show ?thesis using pending assms(2) by (simp add: approve_swap_def Let_def)
  next
    case (Inr res)
    obtain reciprocal db1 where res: "res = (reciprocal, db1)" by (cases res)
    have c: "objects_create db ?new = Inr (reciprocal, db1)" using Inr res by simp
    have db1: "I db1" by (rule objects_create_inv[where I = I, OF step assms(2) c])
    show ?thesis
    proof (cases "pre_save ?orig1")
      case (Inl err)
      then show ?thesis using pending c db1 by (simp add: approve_swap_def Let_def)
    next
      case p: (Inr orig2)
      show ?thesis
      proof (cases "db_save db1 orig2")
        case (Inl err)
        then show ?thesis using pending c p db1 by (simp add: approve_swap_def Let_def)
      next
        case (Inr res2)
        obtain orig3 db2 where res2: "res2 = (orig3, db2)" by (cases res2)
        have "save db1 ?orig1 = Inr (orig3, db2)" using p Inr res2 by (simp add: save_def)
        then have "I db2" using step db1 by blast
        then show ?thesis using pending c p Inr res2 by (simp add: approve_swap_def Let_def)
      qed
    qed
  qed
qed

lemma arrange_coverage_inv:
  assumes step: "\<forall>db a a' db'. I db \<longrightarrow> save db a = Inr (a', db') \<longrightarrow> I db'"
  shows "I db \<Longrightarrow> I (snd (arrange_coverage cover who rows db))"
proof (induction rows arbitrary: db)
  case Nil
  then show ?case by simp
next
  case (Cons r rs)
  let ?new = "new_assignment (date r) (monitoring_type r) cover
                (window_start r) (window_end r) ''CONFIRMED''
                (''Covering for '' @ display_name who
                 @ '' on leave. Original assignment ID: ''
                 @ (case pk r of None \<Rightarrow> ''None'' | Some i \<Rightarrow> str_nat i))
                (is_monday_assignment r) (is_extended_window r)"
  let ?upd = "r\<lparr>status := ''CANCELLED'',
                assignment_notes :=
                  ''Cancelled due to leave. Covered by '' @ display_name cover\<rparr>"
  show ?case
  proof (cases "objects_create db ?new")
    case (Inl err)
    then show ?thesis using Cons.prems by simp
  next
    case (Inr res)
    obtain covering db1 where res: "res = (covering, db1)" by (cases res)
    have c: "objects_create db ?new = Inr (covering, db1)" using Inr res by simp
    have db1: "I db1" by (rule objects_create_inv[where I = I, OF step Cons.prems c])
    show ?thesis
    proof (cases "save db1 ?upd")
      case (Inl err)
      then show ?thesis using c db1 by simp
    next
      case (Inr res2)
      obtain saved db2 where res2: "res2 = (saved, db2)" by (cases res2)
      have "I db2" using step db1 Inr res2 by blast
      then have "I (snd (arrange_coverage cover who rs db2))" by (rule Cons.IH)
      then show ?thesis using c Inr res2 by simp
    qed
  qed
qed

lemma approve_leave_db:
  "snd (snd (approve_leave lr ap cov now db)) = db
   \<or> (\<exists>cover who rows.
         snd (snd (approve_leave lr ap cov now db)) = snd (arrange_coverage cover who rows db))"
proof (cases "leave_status lr \<noteq> ''PENDING''")
  case True
  then show ?thesis by (simp add: approve_leave_def)
next
  case pending: False
  obtain n lr1 where ai: "assess_impact lr db = (n, lr1)" by (cases "assess_impact lr db")
  define lr3 where "lr3 = (case cov of None \<Rightarrow> lr1
      | Some c \<Rightarrow> lr1\<lparr>covered_by := Some c,
                      coverage_notes := ''Coverage arranged by '' @ display_name ap\<rparr>)
        \<lparr>leave_approved_by := Some ap, leave_status := ''APPROVED'', updated_at := Some now\<rparr>"
  have unfold: "approve_leave lr ap cov now db =
     (case (if auto_adjust_pattern lr3 then covered_by lr3 else None) of
        None \<Rightarrow> (Inr n, lr3, db)
      | Some cover \<Rightarrow>
          (case arrange_coverage cover (leave_analyst lr3) (affected_rows lr3 db) db of
             (Inl err, db') \<Rightarrow> (Inl err, lr3, db')
           | (Inr u, db') \<Rightarrow> (Inr n, lr3, db')))"
    using pending unfolding approve_leave_def Let_def ai lr3_def by simp
  show ?thesis
  proof (cases "if auto_adjust_pattern lr3 then covered_by lr3 else None")
    case None
    then show ?thesis by (simp add: unfold)
  next
    case (Some cover)
    obtain x db' where ac: "arrange_coverage cover (leave_analyst lr3) (affected_rows lr3 db) db
        = (x, db')"
      by (cases "arrange_coverage cover (leave_analyst lr3) (affected_rows lr3 db) db")
    have "snd (snd (approve_leave lr ap cov now db)) = db'"
      using Some ac by (cases x) (simp_all add: unfold)
    then have "snd (snd (approve_leave lr ap cov now db))
        = snd (arrange_coverage cover (leave_analyst lr3) (affected_rows lr3 db) db)"
      using ac by simp
    then show ?thesis by blast
  qed
qed

lemma approve_leave_inv:
  assumes step: "\<forall>db a a' db'. I db \<longrightarrow> save db a = Inr (a', db') \<longrightarrow> I db'"
    and "I db"
  shows "I (snd (snd (approve_leave lr ap cov now db)))"
  using approve_leave_db[of lr ap cov now db]
    arrange_coverage_inv[where I = I, OF step assms(2)] assms(2)
  by auto

lemma pre_save_windows:
  assumes "window_start a = Some s" "window_end a = Some e"
  shows "\<exists>a1. pre_save a = Inr a1"
  using assms by (simp add: pre_save_def set_duration_def)

lemma create_duplicate:
  assumes "r \<in> set (assignments db)" "row_key a = row_key r"
    "window_start a \<noteq> None" "window_end a \<noteq> None"
  shows "objects_create db a = Inl IntegrityError"
proof -
  obtain a1 where p: "pre_save (a\<lparr>pk := None\<rparr>) = Inr a1"
    using pre_save_windows[of "a\<lparr>pk := None\<rparr>"] assms(3,4) by auto
  have k: "row_key a1 = row_key a" "pk a1 = None"
    using pre_save_fields(1,2,3)[OF p] by (simp_all add: row_key_def)
  have "filter (\<lambda>r. row_key r = row_key a1) (assignments db) \<noteq> []"
    using assms(1,2) k by (auto simp: filter_empty_conv)
  then show ?thesis
    using p k by (simp add: objects_create_def save_def db_save_def)
qed

lemma db_ok_rows:
  assumes "db_ok db" "r \<in> set (assignments db)"
  shows "window_start r \<noteq> None" "window_end r \<noteq> None" "pk r \<noteq> None"
  using assms by (auto simp: db_ok_def list_all_iff row_ok_def split: option.splits)

lemma impacted_affected:
  assumes "db_ok db" "r \<in> set (impacted lr db)"
  shows "r \<in> set (affected_rows (snd (assess_impact lr db)) db)"
proof -
  have r: "r \<in> set (assignments db)" using assms(2) by (simp add: impacted_def)
  then obtain i where i: "pk r = Some i" using db_ok_rows(3)[OF assms(1)] by auto
  then have "i \<in> set (List.map_filter pk (impacted lr db))"
    using assms(2) by (force simp: map_filter_def)
  then show ?thesis
    using r i by (simp add: affected_rows_def assess_impact_def cong: option.case_cong)
qed

lemma arrange_coverage_fails:
  assumes "db_ok db" "rows \<noteq> []" "set rows \<subseteq> set (assignments db)"
  shows "arrange_coverage cover who rows db = (Inl IntegrityError, db)"
proof -
  obtain r rs where rows: "rows = r # rs" using assms(2) by (cases rows) auto
  then have r: "r \<in> set (assignments db)" using assms(3) by simp
  let ?new = "new_assignment (date r) (monitoring_type r) cover
                (window_start r) (window_end r) ''CONFIRMED''
                (''Covering for '' @ display_name who
                 @ '' on leave. Original assignment ID: ''
                 @ (case pk r of None \<Rightarrow> ''None'' | Some i \<Rightarrow> str_nat i))
                (is_monday_assignment r) (is_extended_window r)"
  have "objects_create db ?new = Inl IntegrityError"
    by (rule create_duplicate[OF r])
       (use db_ok_rows[OF assms(1) r] in \<open>simp_all add: new_assignment_def row_key_def\<close>)
  then show ?thesis by (simp add: rows)
qed

lemma db_ok_step:
  "\<forall>db a a' db'. db_ok db \<longrightarrow> save db a = Inr (a', db') \<longrightarrow> db_ok db'"
  using db_ok_save by blast

lemma monday_ok_step:
  "\<forall>db a a' db'. monday_ok db \<longrightarrow> save db a = Inr (a', db') \<longrightarrow> monday_ok db'"
  using monday_ok_save by blast

lemma db_ok_example_db1: "db_ok example_db1"
  by (simp add: db_ok_def unique_keys_def row_ok_def example_db1_def example_db_def
      example_monday_row_def)

lemma monday_ok_example_db1: "monday_ok example_db1"
  by (simp add: monday_ok_def monday_flag_ok_def example_db1_def example_db_def
      example_monday_row_def weekday_def ymd_vals)

section \<open>Approving a swap\<close>

text \<open>
  C2 (the code departs from the claim). The claim asks \<^verbatim>\<open>approve_swap\<close> on a PENDING
  request whose original assignment is stored to create the reciprocal row, reassign
  the original and mark the request APPROVED. The reciprocal row has the date and
  monitoring type of the original, which is in the table, so the UNIQUE constraint of
  \<^verbatim>\<open>unique_together\<close> rejects the insert: for every such request \<^verbatim>\<open>approve_swap\<close> ends
  with \<open>IntegrityError\<close>, and the request and the database are as before. The witness
  is the swap of the EM assignment of Monday 2024-01-08.
\<close>

theorem approve_swap_pending_fails:
  assumes "db_ok db" "swap_status req = ''PENDING''"
    "original_assignment req \<in> set (assignments db)"
  shows "approve_swap req approved_by_analyst now db = (Inl IntegrityError, req, db)"
proof -
  let ?orig = "original_assignment req"
  let ?new = "new_assignment (date ?orig) (monitoring_type ?orig) (requested_analyst req)
                   (window_start ?orig) (window_end ?orig) ''CONFIRMED''
                   (''Swapped with '' @ display_name (analyst ?orig) @ ''. '' @ reason req)
                   False False"
  have "objects_create db ?new = Inl IntegrityError"
    by (rule create_duplicate[OF assms(3)])
       (use db_ok_rows[OF assms(1,3)] in \<open>simp_all add: new_assignment_def row_key_def\<close>)
  then show ?thesis using assms(2) by (simp add: approve_swap_def Let_def)
qed

theorem approve_swap_pending_fails_witness:
  "db_ok example_db1 \<and> swap_status example_swap = ''PENDING''
   \<and> original_assignment example_swap \<in> set (assignments example_db1)
   \<and> approve_swap example_swap (example_analyst 3 ''Natnael'') 0 example_db1
       = (Inl IntegrityError, example_swap, example_db1)"
proof -
  have p: "swap_status example_swap = ''PENDING''" by (simp add: example_swap_def)
  have m: "original_assignment example_swap \<in> set (assignments example_db1)"
    by (simp add: example_swap_def example_db1_def)
  show ?thesis
    using db_ok_example_db1 p m
      approve_swap_pending_fails[OF db_ok_example_db1 p m, of "example_analyst 3 ''Natnael''" 0]
    by simp
qed

section \<open>Approving a leave request\<close>

text \<open>
  C4 (the code departs from the claim). The claim asks \<^verbatim>\<open>approve_leave\<close> with a coverage
  analyst to cancel every affected assignment and to create one covering assignment
  for each. \<^verbatim>\<open>_arrange_coverage\<close> creates the covering row before it cancels the
  original, with the date and monitoring type of the original, which is still in the
  table: whenever at least one assignment is affected, the first insert is rejected
  with \<open>IntegrityError\<close>. No assignment is cancelled and none is created; the request
  has already been saved as APPROVED. The witness is a leave of the analyst who holds
  the EM assignment of Monday 2024-01-08.
\<close>

theorem approve_leave_coverage_fails:
  assumes "db_ok db" "leave_status lr = ''PENDING''" "auto_adjust_pattern lr"
    "impacted lr db \<noteq> []"
  shows "approve_leave lr approved_by_analyst (Some coverage_analyst) now db
         = (Inl IntegrityError,
            lr\<lparr>affected_assignments := List.map_filter pk (impacted lr db),
               covered_by := Some coverage_analyst,
               coverage_notes := ''Coverage arranged by '' @ display_name approved_by_analyst,
               leave_approved_by := Some approved_by_analyst,
               leave_status := ''APPROVED'',
               updated_at := Some now\<rparr>,
            db)"
proof -
  let ?lr3 = "lr\<lparr>affected_assignments := List.map_filter pk (impacted lr db),
               covered_by := Some coverage_analyst,
               coverage_notes := ''Coverage arranged by '' @ display_name approved_by_analyst,
               leave_approved_by := Some approved_by_analyst,
               leave_status := ''APPROVED'',
               updated_at := Some now\<rparr>"
  have same: "affected_rows ?lr3 db = affected_rows (snd (assess_impact lr db)) db"
    by (simp add: affected_rows_def assess_impact_def cong: option.case_cong)
  obtain r where "r \<in> set (impacted lr db)" using assms(4) by (cases "impacted lr db") auto
  then have ne: "affected_rows ?lr3 db \<noteq> []"
    using impacted_affected[OF assms(1)] same by force
  have sub: "set (affected_rows ?lr3 db) \<subseteq> set (assignments db)"
    by (simp add: affected_rows_def)
  have "arrange_coverage coverage_analyst (leave_analyst ?lr3) (affected_rows ?lr3 db) db
        = (Inl IntegrityError, db)"
    by (rule arrange_coverage_fails[OF assms(1) ne sub])
  then show ?thesis
    using assms(2,3) by (simp add: approve_leave_def assess_impact_def Let_def)
qed

theorem approve_leave_coverage_fails_witness:
  "db_ok example_db1 \<and> leave_status example_leave = ''PENDING''
   \<and> auto_adjust_pattern example_leave
   \<and> impacted example_leave example_db1 = [example_monday_row]
   \<and> approve_leave example_leave (example_analyst 1 ''Ebisa'')
        (Some (example_analyst 3 ''Natnael'')) 0 example_db1
       = (Inl IntegrityError,
          example_leave\<lparr>affected_assignments := [1],
             covered_by := Some (example_analyst 3 ''Natnael''),
             coverage_notes := ''Coverage arranged by Ebisa'',
             leave_approved_by := Some (example_analyst 1 ''Ebisa''),
             leave_status := ''APPROVED'',
             updated_at := Some 0\<rparr>,
          example_db1)"
proof -
  have p: "leave_status example_leave = ''PENDING''" by (simp add: example_leave_def)
  have a: "auto_adjust_pattern example_leave" by (simp add: example_leave_def)
  have i: "impacted example_leave example_db1 = [example_monday_row]"
    by (simp add: impacted_def example_leave_def example_db1_def example_monday_row_def
        example_analyst_def ymd_vals)
  have ne: "impacted example_leave example_db1 \<noteq> []" using i by simp
  have pks: "List.map_filter pk (impacted example_leave example_db1) = [1]"
    by (simp add: i map_filter_def example_monday_row_def)
  show ?thesis
    using db_ok_example_db1 p a i
      approve_leave_coverage_fails[OF db_ok_example_db1 p a ne,
        of "example_analyst 1 ''Ebisa''" "example_analyst 3 ''Natnael''" 0, unfolded pks]
    by (simp add: example_analyst_def)
qed

section \<open>One assignment per date and monitoring type\<close>

text \<open>
  C3. \<open>db_ok\<close> holds of a database with an empty assignment table and is kept by every
  write, so it holds in every state the operations reach. In such a state no two
  assignments share \<open>(date, monitoring_type)\<close>; creating an assignment whose key is
  already in the table is rejected with \<open>IntegrityError\<close> (the failed statement writes
  nothing: the table is the one before the call); and \<^verbatim>\<open>save\<close>,
  \<^verbatim>\<open>objects.create\<close>, \<^verbatim>\<open>generate_schedule\<close>, \<^verbatim>\<open>approve_swap\<close> and \<^verbatim>\<open>approve_leave\<close> lead
  to a state where the invariant holds again, whether they return or raise.
\<close>

theorem one_assignment_per_date_and_type:
  assumes "db_ok db"
  shows "db_ok (db\<lparr>assignments := []\<rparr>)
    \<and> distinct (map row_key (assignments db))
    \<and> (\<forall>r a. r \<in> set (assignments db) \<and> row_key a = row_key r
              \<and> window_start a \<noteq> None \<and> window_end a \<noteq> None
          \<longrightarrow> objects_create db a = Inl IntegrityError)
    \<and> (\<forall>a a' db'. save db a = Inr (a', db') \<longrightarrow> db_ok db')
    \<and> (\<forall>a a' db'. objects_create db a = Inr (a', db') \<longrightarrow> db_ok db')
    \<and> db_ok (snd (snd (generate_schedule gen s e now db)))
    \<and> db_ok (snd (snd (approve_swap req swap_approver now db)))
    \<and> db_ok (snd (snd (approve_leave lr leave_approver cov now db)))"
proof -
  have 1: "distinct (map row_key (assignments db))"
    using assms by (simp add: db_ok_def unique_keys_def)
  have 2: "\<forall>r a. r \<in> set (assignments db) \<and> row_key a = row_key r
              \<and> window_start a \<noteq> None \<and> window_end a \<noteq> None
          \<longrightarrow> objects_create db a = Inl IntegrityError"
    using create_duplicate by blast
  have 3: "\<forall>a a' db'. save db a = Inr (a', db') \<longrightarrow> db_ok db'"
    using db_ok_save[OF assms] by blast
  have 4: "\<forall>a a' db'. objects_create db a = Inr (a', db') \<longrightarrow> db_ok db'"
    using objects_create_inv[where I = db_ok, OF db_ok_step assms] by blast
  have 5: "db_ok (snd (snd (generate_schedule gen s e now db)))"
    by (rule generate_schedule_inv[where I = db_ok, OF db_ok_step assms])
  have 6: "db_ok (snd (snd (approve_swap req swap_approver now db)))"
    by (rule approve_swap_inv[where I = db_ok, OF db_ok_step assms])
  have 7: "db_ok (snd (snd (approve_leave lr leave_approver cov now db)))"
    by (rule approve_leave_inv[where I = db_ok, OF db_ok_step assms])
  have 0: "db_ok (db\<lparr>assignments := []\<rparr>)"
    by (simp add: db_ok_def unique_keys_def)
  show ?thesis using 0 1 2 3 4 5 6 7 by blast
qed

theorem one_assignment_per_date_and_type_witness:
  "db_ok example_db
   \<and> save example_db
        ((new_assignment (ymd 2024 1 8) example_em (example_analyst 4 ''Nurahmed'') None None
            ''CONFIRMED'' [] False False)
         \<lparr>window_start := Some ((ymd 2024 1 8 - 2) * 1440 + 7 * 60),
          window_end := Some (ymd 2024 1 8 * 1440 + 7 * 60)\<rparr>)
        = Inr (example_monday_row, example_db1)
   \<and> objects_create example_db
        (new_assignment (ymd 2024 1 8) example_em (example_analyst 4 ''Nurahmed'')
           (Some (ymd 2024 1 6 * 1440 + 7 * 60)) (Some (ymd 2024 1 8 * 1440 + 7 * 60))
           ''CONFIRMED'' [] True False)
        = Inr (example_monday_row, example_db1)
   \<and> db_ok example_db1
   \<and> distinct (map row_key (assignments example_db1))
   \<and> objects_create example_db1
        (new_assignment (ymd 2024 1 8) example_em (example_analyst 3 ''Natnael'')
           (Some (ymd 2024 1 6 * 1440 + 7 * 60)) (Some (ymd 2024 1 8 * 1440 + 7 * 60))
           ''CONFIRMED'' [] False False) = Inl IntegrityError
   \<and> db_ok (snd (snd (generate_schedule example_generator (ymd 2024 1 8) (ymd 2024 1 9) 0
                        example_db1)))
   \<and> db_ok (snd (snd (approve_swap example_swap (example_analyst 3 ''Natnael'') 0
                        example_db1)))
   \<and> db_ok (snd (snd (approve_leave example_leave (example_analyst 1 ''Ebisa'')
                        (Some (example_analyst 3 ''Natnael'')) 0 example_db1)))"
proof -
  let ?dup = "new_assignment (ymd 2024 1 8) example_em (example_analyst 3 ''Natnael'')
           (Some (ymd 2024 1 6 * 1440 + 7 * 60)) (Some (ymd 2024 1 8 * 1440 + 7 * 60))
           ''CONFIRMED'' [] False False"
  have e: "db_ok example_db"
    by (simp add: db_ok_def unique_keys_def example_db_def)
  note first = one_assignment_per_date_and_type[OF e]
  have saved: "db_ok example_db1"
    using first save_example_monday by blast
  have created: "db_ok example_db1"
    using first create_example_monday by blast
  have dup: "example_monday_row \<in> set (assignments example_db1)
      \<and> row_key ?dup = row_key example_monday_row
      \<and> window_start ?dup \<noteq> None \<and> window_end ?dup \<noteq> None"
    by (simp add: example_db1_def row_key_def new_assignment_def example_monday_row_def)
  show ?thesis
    using e save_example_monday create_example_monday saved dup
      one_assignment_per_date_and_type[OF created,
        where gen = example_generator and s = "ymd 2024 1 8" and e = "ymd 2024 1 9"
          and now = 0 and req = example_swap
          and swap_approver = "example_analyst 3 ''Natnael''" and lr = example_leave
          and leave_approver = "example_analyst 1 ''Ebisa''"
          and cov = "Some (example_analyst 3 ''Natnael'')"]
    by blast
qed

section \<open>The Monday flag\<close>

text \<open>
  C10. Whatever value of \<open>is_monday_assignment\<close> the caller supplied, the assignment
  that \<^verbatim>\<open>save\<close> (and so \<^verbatim>\<open>objects.create\<close>) stores has the flag set exactly when its
  date is a Monday, and the date is the one supplied. Hence a table in which every row
  has the right flag (\<open>monday_ok\<close>) stays so under \<^verbatim>\<open>save\<close>, \<^verbatim>\<open>generate_schedule\<close>,
  \<^verbatim>\<open>approve_swap\<close> and \<^verbatim>\<open>approve_leave\<close>.
\<close>

theorem monday_flag_recomputed_on_save:
  "(save db a = Inr (a', db')
      \<longrightarrow> is_monday_assignment a' = (weekday (date a') = 0) \<and> date a' = date a
          \<and> (monday_ok db \<longrightarrow> monday_ok db'))
   \<and> (objects_create db a = Inr (a', db')
      \<longrightarrow> is_monday_assignment a' = (weekday (date a') = 0) \<and> date a' = date a
          \<and> (monday_ok db \<longrightarrow> monday_ok db'))
   \<and> (monday_ok db
      \<longrightarrow> monday_ok (snd (snd (generate_schedule gen s e now db)))
        \<and> monday_ok (snd (snd (approve_swap req swap_approver now db)))
        \<and> monday_ok (snd (snd (approve_leave lr leave_approver cov now db))))"
proof -
  have flag: "is_monday_assignment x' = (weekday (date x') = 0) \<and> date x' = date x"
    if sv: "save d x = Inr (x', d')" for d x x' d'
  proof -
    obtain a1 where p: "pre_save x = Inr a1" and x': "x' = a1\<lparr>pk := pk x'\<rparr>"
      using save_result[OF sv] by blast
    have "is_monday_assignment x' = is_monday_assignment a1" "date x' = date a1"
      by (subst x', simp)+
    then show ?thesis using pre_save_fields[OF p] by simp
  qed
  have 1: "save db a = Inr (a', db')
      \<longrightarrow> is_monday_assignment a' = (weekday (date a') = 0) \<and> date a' = date a
          \<and> (monday_ok db \<longrightarrow> monday_ok db')"
    using flag[of db a a' db'] monday_ok_save[of db a a' db'] by blast
  have 2: "objects_create db a = Inr (a', db')
      \<longrightarrow> is_monday_assignment a' = (weekday (date a') = 0) \<and> date a' = date a
          \<and> (monday_ok db \<longrightarrow> monday_ok db')"
    using flag[of db "a\<lparr>pk := None\<rparr>" a' db'] monday_ok_save[of db "a\<lparr>pk := None\<rparr>" a' db']
    by (auto simp: objects_create_def)
  have 3: "monday_ok (snd (snd (generate_schedule gen s e now db)))"
    "monday_ok (snd (snd (approve_swap req swap_approver now db)))"
    "monday_ok (snd (snd (approve_leave lr leave_approver cov now db)))"
    if "monday_ok db"
    by (rule generate_schedule_inv[where I = monday_ok, OF monday_ok_step that],
        rule approve_swap_inv[where I = monday_ok, OF monday_ok_step that],
        rule approve_leave_inv[where I = monday_ok, OF monday_ok_step that])
  show ?thesis using 1 2 3 by blast
qed

theorem monday_flag_recomputed_on_save_witness:
  "save example_db
     ((new_assignment (ymd 2024 1 8) example_em (example_analyst 4 ''Nurahmed'') None None
         ''CONFIRMED'' [] False False)
      \<lparr>window_start := Some ((ymd 2024 1 8 - 2) * 1440 + 7 * 60),
       window_end := Some (ymd 2024 1 8 * 1440 + 7 * 60)\<rparr>)
     = Inr (example_monday_row, example_db1)
   \<and> objects_create example_db
        (new_assignment (ymd 2024 1 8) example_em (example_analyst 4 ''Nurahmed'')
           (Some (ymd 2024 1 6 * 1440 + 7 * 60)) (Some (ymd 2024 1 8 * 1440 + 7 * 60))
           ''CONFIRMED'' [] True False)
        = Inr (example_monday_row, example_db1)
   \<and> is_monday_assignment example_monday_row
   \<and> weekday (date example_monday_row) = 0
   \<and> monday_ok example_db \<and> monday_ok example_db1
   \<and> monday_ok (snd (snd (generate_schedule example_generator (ymd 2024 1 8) (ymd 2024 1 9) 0
                            example_db1)))
   \<and> monday_ok (snd (snd (approve_swap example_swap (example_analyst 3 ''Natnael'') 0
                            example_db1)))
   \<and> monday_ok (snd (snd (approve_leave example_leave (example_analyst 1 ''Ebisa'')
                            (Some (example_analyst 3 ''Natnael'')) 0 example_db1)))"
proof -
  have e: "monday_ok example_db" by (simp add: monday_ok_def example_db_def)
  have w: "weekday (date example_monday_row) = 0"
    by (simp add: example_monday_row_def weekday_def ymd_vals)
  have sv: "save example_db
     ((new_assignment (ymd 2024 1 8) example_em (example_analyst 4 ''Nurahmed'') None None
         ''CONFIRMED'' [] False False)
      \<lparr>window_start := Some ((ymd 2024 1 8 - 2) * 1440 + 7 * 60),
       window_end := Some (ymd 2024 1 8 * 1440 + 7 * 60)\<rparr>)
     = Inr (example_monday_row, example_db1)"
    by (rule save_example_monday)
  have flag: "is_monday_assignment example_monday_row"
    using monday_flag_recomputed_on_save[where db = example_db and a' = example_monday_row
        and db' = example_db1] sv w
    by blast
  have flag': "is_monday_assignment example_monday_row = (weekday (date example_monday_row) = 0)"
    using monday_flag_recomputed_on_save[where db = example_db and a' = example_monday_row
        and db' = example_db1] create_example_monday
    by blast
  have ops: "monday_ok (snd (snd (generate_schedule example_generator (ymd 2024 1 8)
                                    (ymd 2024 1 9) 0 example_db1)))
   \<and> monday_ok (snd (snd (approve_swap example_swap (example_analyst 3 ''Natnael'') 0
                            example_db1)))
   \<and> monday_ok (snd (snd (approve_leave example_leave (example_analyst 1 ''Ebisa'')
                            (Some (example_analyst 3 ''Natnael'')) 0 example_db1)))"
    using monday_flag_recomputed_on_save[where db = example_db1] monday_ok_example_db1
    by blast
  show ?thesis
    using sv create_example_monday flag flag' w e monday_ok_example_db1 ops by blast
qed

section \<open>Generating the schedule\<close>

lemma objects_create_rows:
  assumes "objects_create db a = Inr (a', db')"
  shows "assignments db' = assignments db @ [a']" "date a' = date a"
proof -
  obtain a1 where p: "pre_save (a\<lparr>pk := None\<rparr>) = Inr a1"
    and s: "db_save db a1 = Inr (a', db')"
    using assms by (auto simp: objects_create_def save_def split: sum.splits)
  have f: "pk a1 = None" "date a1 = date a" using pre_save_fields(1,3)[OF p] by simp_all
  show "assignments db' = assignments db @ [a']" "date a' = date a"
    using s f by (auto simp: db_save_def Let_def split: if_splits)
qed

lemma generate_day_rows:
  assumes "generate_day sp d db = Inr db2"
  shows "\<exists>r1 r2. assignments db2 = assignments db @ [r1, r2] \<and> date r1 = d \<and> date r2 = d"
proof -
  obtain a1 r1 db1 a2 r2 where c1: "objects_create db a1 = Inr (r1, db1)"
    and c2: "objects_create db1 a2 = Inr (r2, db2)"
    and d: "date a1 = d" "date a2 = d"
    using assms
    by (auto simp: generate_day_def new_assignment_def
        split: sum.splits option.splits prod.splits)
  show ?thesis
    using objects_create_rows[OF c1] objects_create_rows[OF c2] d by simp
qed

lemma generate_day_rows_on:
  assumes "generate_day sp d db = Inr db2"
  shows "rows_on db2 d \<noteq> []" "d' \<noteq> d \<Longrightarrow> rows_on db2 d' = rows_on db d'"
  using generate_day_rows[OF assms] by (auto simp: rows_on_def)

lemma generate_loop_result:
  "generate_loop sp cur e c db = Inr (n, db') \<Longrightarrow>
     (\<forall>d. cur \<le> d \<and> d \<le> e \<longrightarrow> rows_on db' d \<noteq> [])
     \<and> (\<forall>d. rows_on db d \<noteq> [] \<longrightarrow> rows_on db' d = rows_on db d)
     \<and> (cur \<le> e \<longrightarrow> e < date_max)"
proof (induction sp cur e c db rule: generate_loop.induct)
  case (1 sp cur e c db)
  show ?case
  proof (cases "cur \<le> e")
    case False
    then show ?thesis using "1.prems" by (auto simp: generate_loop.simps)
  next
    case le: True
    show ?thesis
    proof (cases "filter (\<lambda>r. date r = cur) (assignments db) \<noteq> []")
      case True
      then have nxt: "cur + 1 \<le> date_max"
        and run: "generate_loop sp (cur + 1) e c db = Inr (n, db')"
        using "1.prems" le by (auto simp: generate_loop.simps[of sp cur] split: if_splits)
      note ih = "1.IH"(1)[OF le True nxt run]
      have here: "rows_on db' cur \<noteq> []" using ih True by (simp add: rows_on_def)
      have "rows_on db' d \<noteq> []" if "cur \<le> d" "d \<le> e" for d
        using that ih here by (cases "d = cur") auto
      moreover have "e < date_max" using ih nxt by (cases "cur + 1 \<le> e") auto
      ultimately show ?thesis using ih by blast
    next
      case False
      then obtain db2 where day: "generate_day sp cur db = Inr db2"
        and nxt: "cur + 1 \<le> date_max"
        and run: "generate_loop sp (cur + 1) e (c + 2) db2 = Inr (n, db')"
        using "1.prems" le
        by (auto simp: generate_loop.simps[of sp cur] split: if_splits sum.splits)
      note ih = "1.IH"(2)[OF le False day nxt run]
      note dr = generate_day_rows_on[OF day]
      have none: "rows_on db cur = []" using False by (simp add: rows_on_def)
      have here: "rows_on db' cur \<noteq> []" using ih dr(1) by auto
      have a: "rows_on db' d \<noteq> []" if "cur \<le> d" "d \<le> e" for d
        using that ih here by (cases "d = cur") auto
      have b: "rows_on db' d = rows_on db d" if "rows_on db d \<noteq> []" for d
      proof -
        have "d \<noteq> cur" using that none by auto
        then have "rows_on db2 d = rows_on db d" by (rule dr(2))
        then show ?thesis using ih that by auto
      qed
      have "e < date_max" using ih nxt by (cases "cur + 1 \<le> e") auto
      then show ?thesis using a b by blast
    qed
  qed
qed

lemma generate_loop_skip_all:
  "(\<forall>d. cur \<le> d \<and> d \<le> e \<longrightarrow> rows_on db d \<noteq> []) \<Longrightarrow> (cur \<le> e \<longrightarrow> e < date_max)
   \<Longrightarrow> generate_loop sp cur e c db = Inr (c, db)"
proof (induction sp cur e c db rule: generate_loop.induct)
  case (1 sp cur e c db)
  show ?case
  proof (cases "cur \<le> e")
    case False
    then show ?thesis by (simp add: generate_loop.simps)
  next
    case le: True
    have ex: "filter (\<lambda>r. date r = cur) (assignments db) \<noteq> []"
      using "1.prems"(1) le by (simp add: rows_on_def)
    have nxt: "cur + 1 \<le> date_max" using "1.prems"(2) le by simp
    have "generate_loop sp (cur + 1) e c db = Inr (c, db)"
      by (rule "1.IH"(1)[OF le ex nxt]) (use "1.prems" in auto)
    then show ?thesis using le ex nxt by (simp add: generate_loop.simps[of sp cur])
  qed
qed

lemma example_pattern_tuesday:
  "get_assignments_for_date example_pattern 738894 = Inr (0, 3)"
proof -
  have j: "(0::int) \<le> 8" "(8::int) < int 365" by simp_all
  show ?thesis
    using gps_get[OF j]
    by (simp add: get_assignments_for_date_def example_pattern_tables gps_empty gps_length)
qed

lemma generate_example_raises:
  "fst (generate_schedule example_generator (ymd 2024 1 9) (ymd 2024 1 9) 0
          (example_db1\<lparr>analysts := []\<rparr>))
   = Inl (AnalystsNotFound 0 3)"
proof -
  have day: "generate_day example_pattern 738894 (example_db1\<lparr>analysts := []\<rparr>)
      = Inl (AnalystsNotFound 0 3)"
    by (simp add: generate_day_def example_pattern_tuesday)
  have "generate_loop example_pattern 738894 738894 0 (example_db1\<lparr>analysts := []\<rparr>)
      = Inl (AnalystsNotFound 0 3)"
    using day
    by (simp add: generate_loop.simps[of _ 738894] example_db1_def example_monday_row_def
        example_db_def ymd_vals)
  then show ?thesis by (simp add: generate_schedule_def example_generator_def ymd_vals)
qed

lemma generate_example_count:
  "fst (generate_schedule example_generator (ymd 2024 1 8) (ymd 2024 1 9) 0 example_db1)
   = Inr 2"
proof -
  note pat = example_pattern_tuesday
  have day: "\<exists>db2. generate_day example_pattern 738894 example_db1 = Inr db2"
    by (simp add: generate_day_def pat example_db1_def example_db_def example_analyst_def
      example_em_def example_dm_def get_time_window_for_date_def window_start_for_def
      window_end_for_def date_add_days_def combine_def weekday_def date_min_def date_max_def
      objects_create_def save_def pre_save_def set_duration_def set_flags_def db_save_def
      new_assignment_def row_key_def example_monday_row_def ymd_vals Let_def)
  then obtain db2 where db2: "generate_day example_pattern 738894 example_db1 = Inr db2" by blast
  have l3: "generate_loop example_pattern 738895 738894 2 db2 = Inr (2, db2)"
    by (simp add: generate_loop.simps)
  have l2: "generate_loop example_pattern 738894 738894 0 example_db1 = Inr (2, db2)"
    using db2 l3
    by (simp add: generate_loop.simps[of _ 738894] example_db1_def example_monday_row_def
        example_db_def ymd_vals date_max_def)
  have l1: "generate_loop example_pattern 738893 738894 0 example_db1 = Inr (2, db2)"
    using l2
    by (simp add: generate_loop.simps[of _ 738893] example_db1_def example_monday_row_def
        example_db_def ymd_vals date_max_def)
  show ?thesis using l1 by (simp add: generate_schedule_def example_generator_def ymd_vals)
qed

text \<open>
  C5. A date that has an assignment before the call has the same assignments after it:
  nothing is added for either monitoring type and nothing is changed (when the call
  raises, the transaction restores the table). And when a call returns, a second call
  over the same range on the state it left returns 0 and leaves the table as it is;
  only \<open>last_generated\<close> is set again. A call that raises leaves the generator and the
  table as they were. The witness is the range 2024-01-08 to
  2024-01-09 on a table that holds the EM assignment of the Monday alone: two
  assignments are created for the Tuesday, none for the Monday.
\<close>

theorem generate_schedule_skips_and_is_idempotent:
  "(rows_on db d \<noteq> []
      \<longrightarrow> rows_on (snd (snd (generate_schedule gen s e now db))) d = rows_on db d)
   \<and> (generate_schedule gen s e now db = (Inr n, gen', db')
      \<longrightarrow> generate_schedule gen' s e now' db'
            = (Inr 0, gen'\<lparr>last_generated := Some now'\<rparr>, db'))
   \<and> (generate_schedule gen s e now db = (Inl err, gen', db') \<longrightarrow> gen' = gen \<and> db' = db)"
proof -
  have skip: "rows_on (snd (snd (generate_schedule gen s e now db))) d = rows_on db d"
    if ex: "rows_on db d \<noteq> []"
  proof (cases "generate_loop (pattern gen) s e 0 db")
    case (Inl err)
    then show ?thesis by (simp add: generate_schedule_def)
  next
    case (Inr res)
    obtain m db2 where res: "res = (m, db2)" by (cases res)
    have "generate_loop (pattern gen) s e 0 db = Inr (m, db2)" using Inr res by simp
    then have "rows_on db2 d = rows_on db d" using generate_loop_result ex by blast
    then show ?thesis using Inr res by (simp add: generate_schedule_def)
  qed
  have idem: "generate_schedule gen' s e now' db'
            = (Inr 0, gen'\<lparr>last_generated := Some now'\<rparr>, db')"
    if run: "generate_schedule gen s e now db = (Inr n, gen', db')"
  proof -
    have loop: "generate_loop (pattern gen) s e 0 db = Inr (n, db')"
      and gen': "gen' = gen\<lparr>last_generated := Some now\<rparr>"
      using run by (auto simp: generate_schedule_def split: sum.splits prod.splits)
    have "generate_loop (pattern gen') s e 0 db' = Inr (0, db')"
      by (rule generate_loop_skip_all) (use generate_loop_result[OF loop] in auto)
    then show ?thesis by (simp add: generate_schedule_def)
  qed
  have raised: "gen' = gen \<and> db' = db"
    if "generate_schedule gen s e now db = (Inl err, gen', db')"
    using that by (auto simp: generate_schedule_def split: sum.splits prod.splits)
  show ?thesis using skip idem raised by blast
qed

theorem generate_schedule_skips_and_is_idempotent_witness:
  "rows_on example_db1 (ymd 2024 1 8) = [example_monday_row]
   \<and> fst (generate_schedule example_generator (ymd 2024 1 8) (ymd 2024 1 9) 0 example_db1) = Inr 2
   \<and> rows_on (snd (snd (generate_schedule example_generator (ymd 2024 1 8) (ymd 2024 1 9) 0 example_db1))) (ymd 2024 1 8) = [example_monday_row]
   \<and> generate_schedule (fst (snd (generate_schedule example_generator (ymd 2024 1 8) (ymd 2024 1 9) 0 example_db1))) (ymd 2024 1 8) (ymd 2024 1 9) 1 (snd (snd (generate_schedule example_generator (ymd 2024 1 8) (ymd 2024 1 9) 0 example_db1)))
       = (Inr 0, (fst (snd (generate_schedule example_generator (ymd 2024 1 8) (ymd 2024 1 9) 0 example_db1)))\<lparr>last_generated := Some 1\<rparr>, snd (snd (generate_schedule example_generator (ymd 2024 1 8) (ymd 2024 1 9) 0 example_db1)))
   \<and> generate_schedule example_generator (ymd 2024 1 9) (ymd 2024 1 9) 0 (example_db1\<lparr>analysts := []\<rparr>)
       = (Inl (AnalystsNotFound 0 3), example_generator, example_db1\<lparr>analysts := []\<rparr>)"
proof -
  have rows: "rows_on example_db1 (ymd 2024 1 8) = [example_monday_row]"
    by (simp add: rows_on_def example_db1_def example_monday_row_def)
  have ne: "rows_on example_db1 (ymd 2024 1 8) \<noteq> []" using rows by simp
  have ev: "fst (generate_schedule example_generator (ymd 2024 1 8) (ymd 2024 1 9) 0 example_db1) = Inr 2" by (rule generate_example_count)
  have r: "generate_schedule example_generator (ymd 2024 1 8) (ymd 2024 1 9) 0 example_db1 = (Inr 2, fst (snd (generate_schedule example_generator (ymd 2024 1 8) (ymd 2024 1 9) 0 example_db1)), snd (snd (generate_schedule example_generator (ymd 2024 1 8) (ymd 2024 1 9) 0 example_db1)))"
    using ev by (metis prod.collapse)
  note t = generate_schedule_skips_and_is_idempotent[where db = example_db1
      and d = "ymd 2024 1 8" and gen = example_generator and s = "ymd 2024 1 8"
      and e = "ymd 2024 1 9" and now = 0 and n = 2 and gen' = "fst (snd (generate_schedule example_generator (ymd 2024 1 8) (ymd 2024 1 9) 0 example_db1))"
      and db' = "snd (snd (generate_schedule example_generator (ymd 2024 1 8) (ymd 2024 1 9) 0 example_db1))" and now' = 1]
  have skip: "rows_on (snd (snd (generate_schedule example_generator (ymd 2024 1 8) (ymd 2024 1 9) 0 example_db1))) (ymd 2024 1 8) = [example_monday_row]"
    using t[THEN conjunct1] ne rows by simp
  have again: "generate_schedule (fst (snd (generate_schedule example_generator (ymd 2024 1 8) (ymd 2024 1 9) 0 example_db1))) (ymd 2024 1 8) (ymd 2024 1 9) 1
        (snd (snd (generate_schedule example_generator (ymd 2024 1 8) (ymd 2024 1 9) 0 example_db1)))
       = (Inr 0, (fst (snd (generate_schedule example_generator (ymd 2024 1 8) (ymd 2024 1 9) 0 example_db1)))\<lparr>last_generated := Some 1\<rparr>, snd (snd (generate_schedule example_generator (ymd 2024 1 8) (ymd 2024 1 9) 0 example_db1)))"
    by (rule t[THEN conjunct2, THEN conjunct1, THEN mp]) (rule r)
  have f: "generate_schedule example_generator (ymd 2024 1 9) (ymd 2024 1 9) 0 (example_db1\<lparr>analysts := []\<rparr>) = (Inl (AnalystsNotFound 0 3), fst (snd (generate_schedule example_generator (ymd 2024 1 9) (ymd 2024 1 9) 0 (example_db1\<lparr>analysts := []\<rparr>))), snd (snd (generate_schedule example_generator (ymd 2024 1 9) (ymd 2024 1 9) 0 (example_db1\<lparr>analysts := []\<rparr>))))"
    using generate_example_raises by (metis prod.collapse)
  note u = generate_schedule_skips_and_is_idempotent[
      where db = "example_db1\<lparr>analysts := []\<rparr>"
      and gen = example_generator and s = "ymd 2024 1 9"
      and e = "ymd 2024 1 9" and now = 0 and err = "AnalystsNotFound 0 3"
      and gen' = "fst (snd (generate_schedule example_generator (ymd 2024 1 9) (ymd 2024 1 9) 0 (example_db1\<lparr>analysts := []\<rparr>)))" and db' = "snd (snd (generate_schedule example_generator (ymd 2024 1 9) (ymd 2024 1 9) 0 (example_db1\<lparr>analysts := []\<rparr>)))"]
  have "fst (snd (generate_schedule example_generator (ymd 2024 1 9) (ymd 2024 1 9) 0 (example_db1\<lparr>analysts := []\<rparr>))) = example_generator \<and> snd (snd (generate_schedule example_generator (ymd 2024 1 9) (ymd 2024 1 9) 0 (example_db1\<lparr>analysts := []\<rparr>))) = example_db1\<lparr>analysts := []\<rparr>"
    by (rule u[THEN conjunct2, THEN conjunct2, THEN mp]) (rule f)
  then have raised: "generate_schedule example_generator (ymd 2024 1 9) (ymd 2024 1 9) 0 (example_db1\<lparr>analysts := []\<rparr>)
       = (Inl (AnalystsNotFound 0 3), example_generator, example_db1\<lparr>analysts := []\<rparr>)"
    using f by simp
  show ?thesis using rows ev skip again raised by blast
qed

end
